theory Spec2Isabelle
  imports Complex_Main
begin

section \<open>The Moebius strip model of \<^verbatim>\<open>src/mobius_strip.py\<close>\<close>

text \<open>
  The program builds an \<open>n \<times> n\<close> parameter grid, evaluates the Moebius parametrisation on
  it and derives a surface area and an edge length from the point arrays.

  Conventions of the embedding.
  \<^item> Python floats are idealised as \<^typ>\<open>real\<close>: every statement below is a statement of
    exact real arithmetic, rounding is not modelled.
  \<^item> A one-dimensional array is a \<^typ>\<open>real list\<close>, a two-dimensional array is the list of
    its rows, so \<open>A ! i ! j\<close> is \<^verbatim>\<open>A[i, j]\<close>.
  \<^item> Python's \<^verbatim>\<open>int\<close> is \<^typ>\<open>int\<close>.
  \<^item> An exception is the \<open>Inl\<close> branch of a sum. The source defines no exception class of
    its own; the only exceptions that can leave its methods are the ones raised by indexing
    and by the library calls.
\<close>

datatype error = ValueError | IndexError

type_synonym array1 = "real list"
type_synonym array2 = "real list list"

subsection \<open>Library operations used by the source\<close>

text \<open>
  The functions of this subsection are not code of the repository: they are the numpy and
  scipy calls the source makes, written out after their documented behaviour for the
  argument forms that occur in \<^verbatim>\<open>mobius_strip.py\<close>.
\<close>

text \<open>
  \<^verbatim>\<open>np.linspace(start, stop, num)\<close> with the default \<^verbatim>\<open>endpoint=True\<close>: a negative
  \<^verbatim>\<open>num\<close> raises; otherwise \<^verbatim>\<open>arange(num) * step + start\<close> with
  \<^verbatim>\<open>step = (stop - start) / (num - 1)\<close>, and the last sample is overwritten by
  \<^verbatim>\<open>stop\<close> when there is more than one sample. A single sample is \<^verbatim>\<open>start\<close>, no
  sample is the empty array.
\<close>

definition linspace :: "real \<Rightarrow> real \<Rightarrow> int \<Rightarrow> error + array1" where
  "linspace start stop num =
     (if num < 0 then Inl ValueError
      else let divisor = num - 1;
               delta = stop - start;
               y = map real [0..<nat num];
               y = (if divisor > 0 then map (\<lambda>a. a * (delta / real_of_int divisor)) y
                    else map (\<lambda>a. a * delta) y);
               y = map (\<lambda>a. a + start) y
           in Inr (if num > 1 then y[nat num - 1 := stop] else y))"

text \<open>
  \<^verbatim>\<open>np.meshgrid(u, v)\<close> with the default \<^verbatim>\<open>indexing='xy'\<close>: both results have
  \<^verbatim>\<open>len(v)\<close> rows and \<^verbatim>\<open>len(u)\<close> columns; the first repeats \<^verbatim>\<open>u\<close> in every row,
  the second repeats \<^verbatim>\<open>v\<close> in every column.
\<close>

definition meshgrid :: "array1 \<Rightarrow> array1 \<Rightarrow> array2 \<times> array2" where
  "meshgrid us vs = (map (\<lambda>_. us) vs, map (\<lambda>b. map (\<lambda>_. b) us) vs)"

text \<open>Elementwise arithmetic on two-dimensional arrays of one shape, and with a scalar.\<close>

definition arr_map :: "(real \<Rightarrow> real) \<Rightarrow> array2 \<Rightarrow> array2" where
  "arr_map f A = map (map f) A"

definition arr_zip :: "(real \<Rightarrow> real \<Rightarrow> real) \<Rightarrow> array2 \<Rightarrow> array2 \<Rightarrow> array2" where
  "arr_zip f A B = map2 (map2 f) A B"

definition nrows :: "array2 \<Rightarrow> nat" where
  "nrows A = length A"

definition ncols :: "array2 \<Rightarrow> nat" where
  "ncols A = (case A of [] \<Rightarrow> 0 | r # _ \<Rightarrow> length r)"

definition column :: "array2 \<Rightarrow> nat \<Rightarrow> array1" where
  "column A j = map (\<lambda>r. r ! j) A"

definition transpose_arr :: "array2 \<Rightarrow> array2" where
  "transpose_arr A = map (column A) [0..<ncols A]"

text \<open>
  Python indexing \<^verbatim>\<open>xs[i]\<close>: a negative index counts from the end, an index outside the
  sequence raises \<^verbatim>\<open>IndexError\<close>.
\<close>

definition getitem :: "'a list \<Rightarrow> int \<Rightarrow> error + 'a" where
  "getitem xs i =
     (let len = int (length xs); j = (if i < 0 then len + i else i)
      in if 0 \<le> j \<and> j < len then Inr (xs ! nat j) else Inl IndexError)"

text \<open>
  \<^verbatim>\<open>np.gradient(f, axis=a)\<close> with unit spacing and the default \<^verbatim>\<open>edge_order=1\<close>: along
  the axis, \<^verbatim>\<open>out[0] = f[1] - f[0]\<close>, \<^verbatim>\<open>out[-1] = f[-1] - f[-2]\<close> and
  \<^verbatim>\<open>out[k] = (f[k+1] - f[k-1]) / 2\<close> in between; fewer than two samples along the axis
  raise \<^verbatim>\<open>ValueError\<close>.
\<close>

definition gradient1 :: "array1 \<Rightarrow> array1" where
  "gradient1 f =
     map (\<lambda>k. if k = 0 then f ! 1 - f ! 0
              else if k = length f - 1 then f ! k - f ! (k - 1)
              else (f ! (k + 1) - f ! (k - 1)) / 2)
         [0..<length f]"

definition gradient :: "array2 \<Rightarrow> nat \<Rightarrow> error + array2" where
  "gradient f axis =
     (if axis = 1
      then (if ncols f < 2 then Inl ValueError else Inr (map gradient1 f))
      else (if nrows f < 2 then Inl ValueError
            else Inr (transpose_arr (map gradient1 (transpose_arr f)))))"

text \<open>\<^verbatim>\<open>np.diff(xs)\<close>: the differences \<^verbatim>\<open>xs[k+1] - xs[k]\<close>.\<close>

definition diff :: "array1 \<Rightarrow> array1" where
  "diff xs = map2 (\<lambda>b a. b - a) (tl xs) xs"

text \<open>
  A Python slice \<^verbatim>\<open>xs[start:stop:2]\<close> with \<^verbatim>\<open>start \<ge> 0\<close>: a negative \<^verbatim>\<open>stop\<close>
  counts from the end, both bounds are clipped to the sequence.
\<close>

definition slice2 :: "'a list \<Rightarrow> nat \<Rightarrow> int \<Rightarrow> 'a list" where
  "slice2 xs start stop =
     (let len = int (length xs);
          e = (if stop < 0 then max 0 (stop + len) else min stop len);
          cnt = nat ((e - int start + 1) div 2)
      in map (\<lambda>k. xs ! (start + 2 * k)) [0..<cnt])"

text \<open>
  \<^verbatim>\<open>scipy.integrate.simps(y, x)\<close> with the default \<^verbatim>\<open>even='avg'\<close>, on one column of
  samples. The helper \<^verbatim>\<open>_basic_simps(y, start, stop, x, dx, axis)\<close> sums Simpson panels
  that start at \<^verbatim>\<open>start, start + 2, ...\<close>, written for unequal spacings. For an odd
  number of samples \<^verbatim>\<open>simps\<close> is \<^verbatim>\<open>_basic_simps(y, 0, N - 2, ...)\<close>; for an even number it
  averages Simpson on the first \<open>N - 2\<close> intervals plus a trapezoid on the last interval
  with Simpson on the last \<open>N - 2\<close> intervals plus a trapezoid on the first. The panels of
  the slices are combined position by position; this is \<^const>\<open>zip\<close>, and where the
  slices differ in length (two samples only: one against none) numpy's broadcasting also
  yields an empty array.
\<close>

definition basic_simps :: "array1 \<Rightarrow> nat \<Rightarrow> int \<Rightarrow> array1 \<Rightarrow> real" where
  "basic_simps y start stop x =
     (let s0 = slice2 y start stop;
          s1 = slice2 y (start + 1) (stop + 1);
          s2 = slice2 y (start + 2) (stop + 2);
          h = diff x;
          h0 = slice2 h start stop;
          h1 = slice2 h (start + 1) (stop + 1);
          tmp = map (\<lambda>(a, b, c, p, q).
                       (p + q) / 6 * (a * (2 - 1 / (p / q))
                                     + b * ((p + q) * (p + q) / (p * q))
                                     + c * (2 - p / q)))
                    (zip s0 (zip s1 (zip s2 (zip h0 h1))))
      in sum_list tmp)"

definition simps_core :: "array1 \<Rightarrow> array1 \<Rightarrow> real" where
  "simps_core y x =
     (let N = length y
      in if N mod 2 = 0
         then let val = 0 + 0.5 * (x ! (N - 1) - x ! (N - 2)) * (y ! (N - 1) + y ! (N - 2));
                  result = basic_simps y 0 (int N - 3) x;
                  val = val + 0.5 * (x ! 1 - x ! 0) * (y ! 1 + y ! 0);
                  result = result + basic_simps y 1 (int N - 2) x;
                  val = val / 2;
                  result = result / 2
              in result + val
         else basic_simps y 0 (int N - 2) x)"

text \<open>
  The checks \<^verbatim>\<open>simps\<close> makes on whole arrays before it computes: the length of \<^verbatim>\<open>x\<close>
  must be the number of samples along the axis, and an empty axis fails at the index
  \<^verbatim>\<open>-1\<close> of the even branch.
\<close>

definition simps :: "array1 \<Rightarrow> array1 \<Rightarrow> error + real" where
  "simps y x =
     (if length x \<noteq> length y then Inl ValueError
      else if length y = 0 then Inl IndexError
      else Inr (simps_core y x))"

definition simps_axis0 :: "array2 \<Rightarrow> array1 \<Rightarrow> error + array1" where
  "simps_axis0 y x =
     (if length x \<noteq> nrows y then Inl ValueError
      else if nrows y = 0 then Inl IndexError
      else Inr (map (\<lambda>c. simps_core c x) (transpose_arr y)))"

subsection \<open>The class \<^verbatim>\<open>MobiusStrip\<close>\<close>

text \<open>The instance attributes, in the order \<^verbatim>\<open>__init__\<close> assigns them.\<close>

record mobius_strip =
  self_R :: real
  self_w :: real
  self_n :: int
  self_u :: array1
  self_v :: array1
  self_U :: array2
  self_V :: array2
  self_X :: array2
  self_Y :: array2
  self_Z :: array2

text \<open>
  \<^verbatim>\<open>_compute_points\<close> reads \<^verbatim>\<open>self.R\<close>, \<^verbatim>\<open>self.U\<close> and \<^verbatim>\<open>self.V\<close>; the model takes
  the three as arguments and follows the elementwise steps of the source.
\<close>

definition compute_points :: "real \<Rightarrow> array2 \<Rightarrow> array2 \<Rightarrow> array2 \<times> array2 \<times> array2" where
  "compute_points R0 U0 V0 =
     (let X = arr_zip (\<lambda>a b. a * b)
                (arr_map (\<lambda>a. R0 + a) (arr_zip (\<lambda>a b. a * b) V0 (arr_map cos (arr_map (\<lambda>a. a / 2) U0))))
                (arr_map cos U0);
          Y = arr_zip (\<lambda>a b. a * b)
                (arr_map (\<lambda>a. R0 + a) (arr_zip (\<lambda>a b. a * b) V0 (arr_map cos (arr_map (\<lambda>a. a / 2) U0))))
                (arr_map sin U0);
          Z = arr_zip (\<lambda>a b. a * b) V0 (arr_map sin (arr_map (\<lambda>a. a / 2) U0))
      in (X, Y, Z))"

text \<open>
  \<^verbatim>\<open>__init__\<close>: no argument is checked. The two \<^verbatim>\<open>linspace\<close> calls are the only places
  that can raise.
\<close>

definition init :: "real \<Rightarrow> real \<Rightarrow> int \<Rightarrow> error + mobius_strip" where
  "init R0 w0 n0 =
     (case linspace 0 (2 * pi) n0 of
        Inl e \<Rightarrow> Inl e
      | Inr us \<Rightarrow>
          (case linspace (- w0 / 2) (w0 / 2) n0 of
             Inl e \<Rightarrow> Inl e
           | Inr vs \<Rightarrow>
               (case meshgrid us vs of
                  (U0, V0) \<Rightarrow>
                    (case compute_points R0 U0 V0 of
                       (X, Y, Z) \<Rightarrow>
                         Inr \<lparr>self_R = R0, self_w = w0, self_n = n0,
                              self_u = us, self_v = vs, self_U = U0, self_V = V0,
                              self_X = X, self_Y = Y, self_Z = Z\<rparr>))))"

text \<open>Sequencing of calls that may raise: the first exception ends the method.\<close>

definition and_then :: "error + 'a \<Rightarrow> ('a \<Rightarrow> error + 'b) \<Rightarrow> error + 'b" where
  "and_then r f = (case r of Inl e \<Rightarrow> Inl e | Inr a \<Rightarrow> f a)"

text \<open>
  \<^verbatim>\<open>surface_area\<close>: the spacings are read from the first two samples of each axis, the
  six tangent arrays are the unit-spacing gradients divided by the spacing, the area
  element is the norm of the cross product, and \<^verbatim>\<open>simps\<close> integrates first along axis 0
  against \<^verbatim>\<open>self.v\<close>, then the resulting row against \<^verbatim>\<open>self.u\<close>. Dividing by a zero
  spacing is not an exception in numpy; it can only happen for \<^verbatim>\<open>w = 0\<close>, and the
  statements about this method exclude that case.
\<close>

definition surface_area :: "mobius_strip \<Rightarrow> error + real" where
  "surface_area self =
     and_then (getitem (self_u self) 1) (\<lambda>u1.
     and_then (getitem (self_u self) 0) (\<lambda>u0.
     let du = u1 - u0 in
     and_then (getitem (self_v self) 1) (\<lambda>v1.
     and_then (getitem (self_v self) 0) (\<lambda>v0.
     let dv = v1 - v0 in
     and_then (gradient (self_X self) 1) (\<lambda>gXu.
     let Xu = arr_map (\<lambda>a. a / du) gXu in
     and_then (gradient (self_Y self) 1) (\<lambda>gYu.
     let Yu = arr_map (\<lambda>a. a / du) gYu in
     and_then (gradient (self_Z self) 1) (\<lambda>gZu.
     let Zu = arr_map (\<lambda>a. a / du) gZu in
     and_then (gradient (self_X self) 0) (\<lambda>gXv.
     let Xv = arr_map (\<lambda>a. a / dv) gXv in
     and_then (gradient (self_Y self) 0) (\<lambda>gYv.
     let Yv = arr_map (\<lambda>a. a / dv) gYv in
     and_then (gradient (self_Z self) 0) (\<lambda>gZv.
     let Zv = arr_map (\<lambda>a. a / dv) gZv;
         Nx = arr_zip (\<lambda>a b. a - b) (arr_zip (\<lambda>a b. a * b) Yu Zv) (arr_zip (\<lambda>a b. a * b) Zu Yv);
         Ny = arr_zip (\<lambda>a b. a - b) (arr_zip (\<lambda>a b. a * b) Zu Xv) (arr_zip (\<lambda>a b. a * b) Xu Zv);
         Nz = arr_zip (\<lambda>a b. a - b) (arr_zip (\<lambda>a b. a * b) Xu Yv) (arr_zip (\<lambda>a b. a * b) Yu Xv);
         dA = arr_map sqrt
                (arr_zip (\<lambda>a b. a + b)
                   (arr_zip (\<lambda>a b. a + b) (arr_map (\<lambda>a. a ^ 2) Nx) (arr_map (\<lambda>a. a ^ 2) Ny))
                   (arr_map (\<lambda>a. a ^ 2) Nz))
     in and_then (simps_axis0 dA (self_v self)) (\<lambda>area_v.
        simps area_v (self_u self))))))))))))"

text \<open>
  \<^verbatim>\<open>edge_length\<close>: the loop over \<^verbatim>\<open>v_idx in [0, -1]\<close> with its accumulator
  \<^verbatim>\<open>total_length\<close>. Each pass takes one row of the three point arrays, the differences
  of neighbouring samples, their norms and the sum of the norms.
\<close>

fun edge_loop :: "mobius_strip \<Rightarrow> int list \<Rightarrow> real \<Rightarrow> error + real" where
  "edge_loop self [] total_length = Inr total_length"
| "edge_loop self (v_idx # rest) total_length =
     and_then (getitem (self_X self) v_idx) (\<lambda>x_edge.
     and_then (getitem (self_Y self) v_idx) (\<lambda>y_edge.
     and_then (getitem (self_Z self) v_idx) (\<lambda>z_edge.
     let dx = diff x_edge;
         dy = diff y_edge;
         dz = diff z_edge;
         ds = map sqrt
                (map2 (\<lambda>a b. a + b)
                   (map2 (\<lambda>a b. a + b) (map (\<lambda>a. a ^ 2) dx) (map (\<lambda>a. a ^ 2) dy))
                   (map (\<lambda>a. a ^ 2) dz))
     in edge_loop self rest (total_length + sum_list ds))))"

definition edge_length :: "mobius_strip \<Rightarrow> error + real" where
  "edge_length self = edge_loop self [0, - 1] 0"

subsection \<open>The methods as statement sequences on the instance\<close>

text \<open>
  To speak about what a call does to the instance, the method bodies are written a second
  time, statement by statement, as transformers of the instance: a body takes the instance
  and gives back its result, or the exception it raised, with the instance as the
  statements left it. The statements are
  \<^item> \<open>load\<close>, reading an attribute (\<^verbatim>\<open>self.u\<close> on the right of an assignment or in an
    argument);
  \<^item> \<open>store\<close>, assigning to an attribute (\<^verbatim>\<open>self.u = ...\<close>);
  \<^item> \<open>call\<close>, a library call or an indexing on values already read: it returns or
    raises, and, as numpy and scipy document for the functions used here, it builds a new
    array and leaves its arguments as they are;
  \<^item> \<open>ret\<close>, a value computed from local variables, and \<open>seq\<close>, one statement after
    another, where an exception ends the method.
  Local variables are bound by \<open>let\<close> and by the \<open>\<lambda>\<close> of \<open>seq\<close>. No statement of the
  source applies an in-place operator to an array, so arrays are values here and a row
  taken from \<^verbatim>\<open>self.X\<close> is the list of its entries.
\<close>

type_synonym 'a stmt = "mobius_strip \<Rightarrow> (error + 'a) \<times> mobius_strip"

definition ret :: "'a \<Rightarrow> 'a stmt" where
  "ret a = (\<lambda>self. (Inr a, self))"

definition load :: "(mobius_strip \<Rightarrow> 'a) \<Rightarrow> 'a stmt" where
  "load attr = (\<lambda>self. (Inr (attr self), self))"

definition store :: "(('a \<Rightarrow> 'a) \<Rightarrow> mobius_strip \<Rightarrow> mobius_strip) \<Rightarrow> 'a \<Rightarrow> unit stmt" where
  "store attr_update a = (\<lambda>self. (Inr (), attr_update (\<lambda>_. a) self))"

definition call :: "error + 'a \<Rightarrow> 'a stmt" where
  "call r = (\<lambda>self. (r, self))"

definition seq :: "'a stmt \<Rightarrow> ('a \<Rightarrow> 'b stmt) \<Rightarrow> 'b stmt" where
  "seq m k = (\<lambda>self. case m self of
                       (Inl e, self') \<Rightarrow> (Inl e, self')
                     | (Inr a, self') \<Rightarrow> k a self')"

text \<open>
  \<^verbatim>\<open>surface_area\<close>, lines 62 to 84: every \<^verbatim>\<open>self.u\<close>, \<^verbatim>\<open>self.v\<close>, \<^verbatim>\<open>self.X\<close>,
  \<^verbatim>\<open>self.Y\<close>, \<^verbatim>\<open>self.Z\<close> of the source is a \<open>load\<close>, in the order of the source.
\<close>

definition surface_area_call :: "real stmt" where
  "surface_area_call =
     seq (load self_u) (\<lambda>u.
     seq (call (getitem u 1)) (\<lambda>u1.
     seq (load self_u) (\<lambda>u.
     seq (call (getitem u 0)) (\<lambda>u0.
     let du = u1 - u0 in
     seq (load self_v) (\<lambda>v.
     seq (call (getitem v 1)) (\<lambda>v1.
     seq (load self_v) (\<lambda>v.
     seq (call (getitem v 0)) (\<lambda>v0.
     let dv = v1 - v0 in
     seq (load self_X) (\<lambda>X.
     seq (call (gradient X 1)) (\<lambda>gXu.
     let Xu = arr_map (\<lambda>a. a / du) gXu in
     seq (load self_Y) (\<lambda>Y.
     seq (call (gradient Y 1)) (\<lambda>gYu.
     let Yu = arr_map (\<lambda>a. a / du) gYu in
     seq (load self_Z) (\<lambda>Z.
     seq (call (gradient Z 1)) (\<lambda>gZu.
     let Zu = arr_map (\<lambda>a. a / du) gZu in
     seq (load self_X) (\<lambda>X.
     seq (call (gradient X 0)) (\<lambda>gXv.
     let Xv = arr_map (\<lambda>a. a / dv) gXv in
     seq (load self_Y) (\<lambda>Y.
     seq (call (gradient Y 0)) (\<lambda>gYv.
     let Yv = arr_map (\<lambda>a. a / dv) gYv in
     seq (load self_Z) (\<lambda>Z.
     seq (call (gradient Z 0)) (\<lambda>gZv.
     let Zv = arr_map (\<lambda>a. a / dv) gZv;
         Nx = arr_zip (\<lambda>a b. a - b) (arr_zip (\<lambda>a b. a * b) Yu Zv) (arr_zip (\<lambda>a b. a * b) Zu Yv);
         Ny = arr_zip (\<lambda>a b. a - b) (arr_zip (\<lambda>a b. a * b) Zu Xv) (arr_zip (\<lambda>a b. a * b) Xu Zv);
         Nz = arr_zip (\<lambda>a b. a - b) (arr_zip (\<lambda>a b. a * b) Xu Yv) (arr_zip (\<lambda>a b. a * b) Yu Xv);
         dA = arr_map sqrt
                (arr_zip (\<lambda>a b. a + b)
                   (arr_zip (\<lambda>a b. a + b) (arr_map (\<lambda>a. a ^ 2) Nx) (arr_map (\<lambda>a. a ^ 2) Ny))
                   (arr_map (\<lambda>a. a ^ 2) Nz))
     in
     seq (load self_v) (\<lambda>v.
     seq (call (simps_axis0 dA v)) (\<lambda>area_v.
     seq (load self_u) (\<lambda>u.
     seq (call (simps area_v u)) (\<lambda>total_area.
     ret total_area))))))))))))))))))))))))"

text \<open>
  \<^verbatim>\<open>edge_length\<close>, lines 91 to 107: the loop over \<^verbatim>\<open>v_idx\<close> with the local
  accumulator \<^verbatim>\<open>total_length\<close>.
\<close>

fun edge_loop_call :: "int list \<Rightarrow> real \<Rightarrow> real stmt" where
  "edge_loop_call [] total_length = ret total_length"
| "edge_loop_call (v_idx # rest) total_length =
     seq (load self_X) (\<lambda>X.
     seq (call (getitem X v_idx)) (\<lambda>x_edge.
     seq (load self_Y) (\<lambda>Y.
     seq (call (getitem Y v_idx)) (\<lambda>y_edge.
     seq (load self_Z) (\<lambda>Z.
     seq (call (getitem Z v_idx)) (\<lambda>z_edge.
     let dx = diff x_edge;
         dy = diff y_edge;
         dz = diff z_edge;
         ds = map sqrt
                (map2 (\<lambda>a b. a + b)
                   (map2 (\<lambda>a b. a + b) (map (\<lambda>a. a ^ 2) dx) (map (\<lambda>a. a ^ 2) dy))
                   (map (\<lambda>a. a ^ 2) dz))
     in edge_loop_call rest (total_length + sum_list ds)))))))"

definition edge_length_call :: "real stmt" where
  "edge_length_call = edge_loop_call [0, - 1] 0"

text \<open>
  \<^verbatim>\<open>_compute_points\<close> and \<^verbatim>\<open>__init__\<close>, lines 15 to 36: the constructor is the method
  that assigns attributes, ten stores in the order of the source.
\<close>

definition compute_points_call :: "(array2 \<times> array2 \<times> array2) stmt" where
  "compute_points_call =
     seq (load self_U) (\<lambda>U.
     seq (load self_V) (\<lambda>V.
     seq (load self_R) (\<lambda>R.
     ret (compute_points R U V))))"

definition init_call :: "real \<Rightarrow> real \<Rightarrow> int \<Rightarrow> unit stmt" where
  "init_call R0 w0 n0 =
     seq (store self_R_update R0) (\<lambda>_.
     seq (store self_w_update w0) (\<lambda>_.
     seq (store self_n_update n0) (\<lambda>_.
     seq (call (linspace 0 (2 * pi) n0)) (\<lambda>us.
     seq (store self_u_update us) (\<lambda>_.
     seq (call (linspace (- w0 / 2) (w0 / 2) n0)) (\<lambda>vs.
     seq (store self_v_update vs) (\<lambda>_.
     seq (load self_u) (\<lambda>u.
     seq (load self_v) (\<lambda>v.
     seq (ret (meshgrid u v)) (\<lambda>(U0, V0).
     seq (store self_U_update U0) (\<lambda>_.
     seq (store self_V_update V0) (\<lambda>_.
     seq compute_points_call (\<lambda>(X, Y, Z).
     seq (store self_X_update X) (\<lambda>_.
     seq (store self_Y_update Y) (\<lambda>_.
     store self_Z_update Z)))))))))))))))"

subsection \<open>Notions used to state the properties\<close>

text \<open>An array has shape \<open>(r, c)\<close>: \<open>r\<close> rows of \<open>c\<close> entries each.\<close>

definition shape :: "array2 \<Rightarrow> nat \<Rightarrow> nat \<Rightarrow> bool" where
  "shape A r c = (length A = r \<and> (\<forall>i<r. length (A ! i) = c))"

text \<open>
  The length of the segment from sample \<open>j\<close> to sample \<open>j + 1\<close> of row \<open>r\<close>, and the
  length of row \<open>r\<close> as an open polyline: the \<open>n - 1\<close> segments between neighbouring
  samples, in increasing \<open>u\<close> order, with no segment from the last sample back to the first.
\<close>

definition segment_length :: "mobius_strip \<Rightarrow> nat \<Rightarrow> nat \<Rightarrow> real" where
  "segment_length self r j =
     sqrt ((self_X self ! r ! (j + 1) - self_X self ! r ! j) ^ 2
         + (self_Y self ! r ! (j + 1) - self_Y self ! r ! j) ^ 2
         + (self_Z self ! r ! (j + 1) - self_Z self ! r ! j) ^ 2)"

definition polyline_length :: "mobius_strip \<Rightarrow> nat \<Rightarrow> real" where
  "polyline_length self r = (\<Sum>j = 0..<nat (self_n self) - 1. segment_length self r j)"

text \<open>
  The difference policy of the area estimate on \<open>N\<close> samples with unit spacing: one-sided
  at the first and at the last sample, central in between.
\<close>

definition central_diff :: "(nat \<Rightarrow> real) \<Rightarrow> nat \<Rightarrow> nat \<Rightarrow> real" where
  "central_diff f N k =
     (if k = 0 then f 1 - f 0
      else if k = N - 1 then f (N - 1) - f (N - 2)
      else (f (k + 1) - f (k - 1)) / 2)"

text \<open>
  The area element at grid cell \<open>(i, j)\<close>: the tangents along \<open>u\<close> (differences along a row,
  divided by \<open>du = u[1] - u[0]\<close>) and along \<open>v\<close> (differences along a column, divided by
  \<open>dv = v[1] - v[0]\<close>), their cross product, and its norm.
\<close>

definition area_element :: "mobius_strip \<Rightarrow> nat \<Rightarrow> nat \<Rightarrow> real" where
  "area_element self i j =
     (let N = nat (self_n self);
          du = self_u self ! 1 - self_u self ! 0;
          dv = self_v self ! 1 - self_v self ! 0;
          Xu = central_diff (\<lambda>t. self_X self ! i ! t) N j / du;
          Yu = central_diff (\<lambda>t. self_Y self ! i ! t) N j / du;
          Zu = central_diff (\<lambda>t. self_Z self ! i ! t) N j / du;
          Xv = central_diff (\<lambda>t. self_X self ! t ! j) N i / dv;
          Yv = central_diff (\<lambda>t. self_Y self ! t ! j) N i / dv;
          Zv = central_diff (\<lambda>t. self_Z self ! t ! j) N i / dv;
          Nx = Yu * Zv - Zu * Yv;
          Ny = Zu * Xv - Xu * Zv;
          Nz = Xu * Yv - Yu * Xv
      in sqrt (Nx ^ 2 + Ny ^ 2 + Nz ^ 2))"

text \<open>
  The double integral with a quadrature rule \<open>Q\<close> on samples and abscissas: first along
  \<open>v\<close> for each column \<open>j\<close>, then the resulting sequence along \<open>u\<close> with the same rule.
\<close>

definition quadrature_area :: "(array1 \<Rightarrow> array1 \<Rightarrow> real) \<Rightarrow> mobius_strip \<Rightarrow> real" where
  "quadrature_area Q self =
     (let N = nat (self_n self)
      in Q (map (\<lambda>j. Q (map (\<lambda>i. area_element self i j) [0..<N]) (self_v self)) [0..<N])
           (self_u self))"

text \<open>The composite trapezoidal rule.\<close>

definition trapz :: "array1 \<Rightarrow> array1 \<Rightarrow> real" where
  "trapz y x = (\<Sum>k = 0..<length y - 1. (x ! (k + 1) - x ! k) * (y ! (k + 1) + y ! k) / 2)"

section \<open>Properties\<close>

subsection \<open>The grid and the points of a constructed instance\<close>

lemma linspace_neg: "n < 0 \<Longrightarrow> linspace a b n = Inl ValueError"
  by (simp add: linspace_def)

lemma linspace_length: "linspace a b n = Inr ys \<Longrightarrow> 0 \<le> n \<and> length ys = nat n"
  by (auto simp: linspace_def Let_def split: if_splits)

lemma linspace_ok: "0 \<le> n \<Longrightarrow> \<exists>ys. linspace a b n = Inr ys"
  by (simp add: linspace_def Let_def)

lemma linspace_nth:
  assumes "linspace a b n = Inr ys" "2 \<le> n" "k < nat n"
  shows "ys ! k = a + real k * ((b - a) / (real_of_int n - 1))"
proof (cases "k = nat n - 1")
  case True
  have rk: "real k = real_of_int n - 1" using True assms(2) by (simp add: of_nat_diff)
  have nz: "real_of_int n - 1 \<noteq> 0" using assms(2) by simp
  have "ys ! k = b" using assms True by (auto simp: linspace_def Let_def split: if_splits)
  then show ?thesis using nz by (simp add: rk)
next
  case False
  then show ?thesis using assms by (auto simp: linspace_def Let_def split: if_splits)
qed


lemma linspace_step:
  assumes "linspace a b n = Inr ys" "2 \<le> n" "k + 1 < nat n"
  shows "ys ! (k + 1) - ys ! k = (b - a) / (real_of_int n - 1)"
proof -
  define d where "d = (b - a) / (real_of_int n - 1)"
  have k: "k < nat n" using assms(3) by simp
  have "ys ! (k + 1) = a + real (k + 1) * d" "ys ! k = a + real k * d"
    unfolding d_def using linspace_nth[OF assms] linspace_nth[OF assms(1,2) k] by simp_all
  then show ?thesis unfolding d_def[symmetric] by (simp add: algebra_simps)
qed

lemma shape_arr_map: "shape A r c \<Longrightarrow> shape (arr_map f A) r c"
  by (simp add: shape_def arr_map_def)

lemma shape_arr_zip: "shape A r c \<Longrightarrow> shape B r c \<Longrightarrow> shape (arr_zip f A B) r c"
  by (simp add: shape_def arr_zip_def)

lemma arr_map_nth: "shape A r c \<Longrightarrow> i < r \<Longrightarrow> j < c \<Longrightarrow> arr_map f A ! i ! j = f (A ! i ! j)"
  by (simp add: shape_def arr_map_def)

lemma arr_zip_nth:
  "shape A r c \<Longrightarrow> shape B r c \<Longrightarrow> i < r \<Longrightarrow> j < c \<Longrightarrow> arr_zip f A B ! i ! j = f (A ! i ! j) (B ! i ! j)"
  by (simp add: shape_def arr_zip_def)

lemma init_neg: "n < 0 \<Longrightarrow> init R w n = Inl ValueError"
  by (simp add: init_def linspace_def)

lemma init_fields:
  assumes "init R w n = Inr m"
  shows "self_R m = R" "self_w m = w" "self_n m = n"
    "linspace 0 (2 * pi) n = Inr (self_u m)"
    "linspace (- w / 2) (w / 2) n = Inr (self_v m)"
    "self_U m = fst (meshgrid (self_u m) (self_v m))"
    "self_V m = snd (meshgrid (self_u m) (self_v m))"
    "self_X m = fst (compute_points R (self_U m) (self_V m))"
    "self_Y m = fst (snd (compute_points R (self_U m) (self_V m)))"
    "self_Z m = snd (snd (compute_points R (self_U m) (self_V m)))"
  using assms by (auto simp: init_def split: sum.splits prod.splits)

lemma init_ok: "0 \<le> n \<Longrightarrow> \<exists>m. init R w n = Inr m"
  by (auto simp: init_def linspace_def Let_def split: sum.splits prod.splits)

lemma init_lengths:
  assumes "init R w n = Inr m"
  shows "0 \<le> n" "length (self_u m) = nat n" "length (self_v m) = nat n"
  using init_fields(4,5)[OF assms] linspace_length by blast+

lemma init_shape_UV:
  assumes "init R w n = Inr m"
  shows "shape (self_U m) (nat n) (nat n)" "shape (self_V m) (nat n) (nat n)"
  unfolding init_fields(6,7)[OF assms] using init_lengths[OF assms]
  by (simp_all add: meshgrid_def shape_def)

lemma init_shape_XYZ:
  assumes "init R w n = Inr m"
  shows "shape (self_X m) (nat n) (nat n)" "shape (self_Y m) (nat n) (nat n)"
    "shape (self_Z m) (nat n) (nat n)"
  unfolding init_fields(8,9,10)[OF assms] using init_shape_UV[OF assms]
  by (simp_all add: compute_points_def Let_def shape_arr_zip shape_arr_map)

lemma init_UV_nth:
  assumes "init R w n = Inr m" "i < nat n" "j < nat n"
  shows "self_U m ! i ! j = self_u m ! j" "self_V m ! i ! j = self_v m ! i"
  unfolding init_fields(6,7)[OF assms(1)] using init_lengths[OF assms(1)] assms(2,3)
  by (simp_all add: meshgrid_def)

lemma init_XYZ_nth:
  assumes "init R w n = Inr m" "i < nat n" "j < nat n"
  shows "self_X m ! i ! j =
           (R + self_V m ! i ! j * cos (self_U m ! i ! j / 2)) * cos (self_U m ! i ! j)"
    "self_Y m ! i ! j =
           (R + self_V m ! i ! j * cos (self_U m ! i ! j / 2)) * sin (self_U m ! i ! j)"
    "self_Z m ! i ! j = self_V m ! i ! j * sin (self_U m ! i ! j / 2)"
proof -
  note sh = init_shape_UV[OF assms(1)]
  note pts = init_fields(8,9,10)[OF assms(1)]
  have X: "self_X m = arr_zip (\<lambda>a b. a * b)
                (arr_map (\<lambda>a. R + a) (arr_zip (\<lambda>a b. a * b) (self_V m) (arr_map cos (arr_map (\<lambda>a. a / 2) (self_U m)))))
                (arr_map cos (self_U m))"
    and Y: "self_Y m = arr_zip (\<lambda>a b. a * b)
                (arr_map (\<lambda>a. R + a) (arr_zip (\<lambda>a b. a * b) (self_V m) (arr_map cos (arr_map (\<lambda>a. a / 2) (self_U m)))))
                (arr_map sin (self_U m))"
    and Z: "self_Z m = arr_zip (\<lambda>a b. a * b) (self_V m) (arr_map sin (arr_map (\<lambda>a. a / 2) (self_U m)))"
    using pts by (simp_all add: compute_points_def Let_def)
  show "self_X m ! i ! j =
           (R + self_V m ! i ! j * cos (self_U m ! i ! j / 2)) * cos (self_U m ! i ! j)"
    unfolding X using sh assms(2,3)
    by (simp add: arr_zip_nth[where r="nat n" and c="nat n"] arr_map_nth[where r="nat n" and c="nat n"] shape_arr_zip shape_arr_map)
  show "self_Y m ! i ! j =
           (R + self_V m ! i ! j * cos (self_U m ! i ! j / 2)) * sin (self_U m ! i ! j)"
    unfolding Y using sh assms(2,3)
    by (simp add: arr_zip_nth[where r="nat n" and c="nat n"] arr_map_nth[where r="nat n" and c="nat n"] shape_arr_zip shape_arr_map)
  show "self_Z m ! i ! j = self_V m ! i ! j * sin (self_U m ! i ! j / 2)"
    unfolding Z using sh assms(2,3)
    by (simp add: arr_zip_nth[where r="nat n" and c="nat n"] arr_map_nth[where r="nat n" and c="nat n"] shape_arr_zip shape_arr_map)
qed


lemma init_u_nth:
  assumes "init R w n = Inr m" "2 \<le> n" "j < nat n"
  shows "self_u m ! j = real j * (2 * pi / (real_of_int n - 1))"
  using linspace_nth[OF init_fields(4)[OF assms(1)] assms(2,3)] by simp

lemma init_v_nth:
  assumes "init R w n = Inr m" "2 \<le> n" "i < nat n"
  shows "self_v m ! i = - w / 2 + real i * (w / (real_of_int n - 1))"
  using linspace_nth[OF init_fields(5)[OF assms(1)] assms(2,3)] by simp

lemma init_u_last:
  assumes "init R w n = Inr m" "2 \<le> n"
  shows "self_u m ! (nat n - 1) = 2 * pi"
proof -
  have "real (nat n - 1) = real_of_int n - 1" using assms(2) by (simp add: of_nat_diff)
  moreover have "real_of_int n - 1 \<noteq> 0" using assms(2) by simp
  ultimately show ?thesis using init_u_nth[OF assms, of "nat n - 1"] assms(2) by simp
qed

lemma init_v_mirror:
  assumes "init R w n = Inr m" "2 \<le> n" "i < nat n"
  shows "self_v m ! (nat n - 1 - i) = - self_v m ! i"
proof -
  have r: "real (nat n - 1 - i) = real_of_int n - 1 - real i"
    using assms(2,3) by (simp add: of_nat_diff)
  have nz: "real_of_int n - 1 \<noteq> 0" using assms(2) by simp
  have lt: "nat n - 1 - i < nat n" using assms(2) by simp
  show ?thesis
    unfolding init_v_nth[OF assms] init_v_nth[OF assms(1,2) lt] r
    using nz by (simp add: field_simps)
qed

text \<open>
  Claim C5. For \<open>n \<ge> 2\<close> the constructed grid has \<open>u\<close> and \<open>v\<close> of length \<open>n\<close>, running
  from \<open>0\<close> to \<open>2\<pi>\<close> and from \<open>-w/2\<close> to \<open>w/2\<close> with both endpoints included, with the
  constant spacings \<open>2\<pi>/(n-1)\<close> and \<open>w/(n-1)\<close>, and the mesh arrays are \<open>n \<times> n\<close> with
  \<open>U[i,j] = u[j]\<close> and \<open>V[i,j] = v[i]\<close>.
\<close>

theorem grid_uniform:
  assumes "2 \<le> n" "init R w n = Inr m" "i < nat n" "j < nat n"
  shows "length (self_u m) = nat n \<and> length (self_v m) = nat n
       \<and> self_u m ! 0 = 0 \<and> self_u m ! (nat n - 1) = 2 * pi
       \<and> self_v m ! 0 = - w / 2 \<and> self_v m ! (nat n - 1) = w / 2
       \<and> self_u m ! j = real j * (2 * pi / (real_of_int n - 1))
       \<and> self_v m ! i = - w / 2 + real i * (w / (real_of_int n - 1))
       \<and> (j + 1 < nat n \<longrightarrow> self_u m ! (j + 1) - self_u m ! j = 2 * pi / (real_of_int n - 1))
       \<and> (i + 1 < nat n \<longrightarrow> self_v m ! (i + 1) - self_v m ! i = w / (real_of_int n - 1))
       \<and> shape (self_U m) (nat n) (nat n) \<and> shape (self_V m) (nat n) (nat n)
       \<and> self_U m ! i ! j = self_u m ! j \<and> self_V m ! i ! j = self_v m ! i"
proof -
  have pos: "0 < nat n" using assms(1) by simp
  have "self_u m ! 0 = 0" using init_u_nth[OF assms(2,1) pos] by simp
  moreover have "self_v m ! 0 = - w / 2" using init_v_nth[OF assms(2,1) pos] by simp
  moreover have "self_v m ! (nat n - 1) = w / 2"
    using init_v_mirror[OF assms(2,1) pos] init_v_nth[OF assms(2,1) pos] by simp
  moreover have "j + 1 < nat n \<longrightarrow> self_u m ! (j + 1) - self_u m ! j = 2 * pi / (real_of_int n - 1)"
    using linspace_step[OF init_fields(4)[OF assms(2)] assms(1), of j] by simp
  moreover have "i + 1 < nat n \<longrightarrow> self_v m ! (i + 1) - self_v m ! i = w / (real_of_int n - 1)"
    using linspace_step[OF init_fields(5)[OF assms(2)] assms(1), of i] by simp
  ultimately show ?thesis
    using init_lengths[OF assms(2)] init_u_last[OF assms(2,1)] init_u_nth[OF assms(2,1,4)]
      init_v_nth[OF assms(2,1,3)] init_shape_UV[OF assms(2)] init_UV_nth[OF assms(2,3,4)]
    by simp
qed

theorem grid_uniform_witness:
  "\<exists>m. init 1 1 3 = Inr m \<and> length (self_u m) = 3 \<and> self_u m ! 0 = 0 \<and> self_u m ! 2 = 2 * pi
      \<and> self_v m ! 0 = - 1 / 2 \<and> self_v m ! 2 = 1 / 2
      \<and> self_u m ! 2 - self_u m ! 1 = pi \<and> self_v m ! 2 - self_v m ! 1 = 1 / 2
      \<and> self_U m ! 1 ! 1 = self_u m ! 1 \<and> self_V m ! 1 ! 1 = self_v m ! 1"
proof -
  obtain m where m: "init 1 1 3 = Inr m" using init_ok[of 3 1 1] by auto
  have "(2::int) \<le> 3" "(1::nat) < nat 3" by simp_all
  from grid_uniform[OF this(1) m this(2) this(2)] m show ?thesis by (intro exI[of _ m]) simp
qed

text \<open>
  Claim C2. At every grid index of a constructed instance the point arrays are given by
  the parametrisation, with the half angle \<open>U/2\<close> in the radial offset and in \<open>Z\<close>. The
  statement needs no bound on \<open>n\<close> beyond the existence of the index.
\<close>

theorem surface_points_formula:
  assumes "init R w n = Inr m" "i < nat n" "j < nat n"
  shows "self_X m ! i ! j =
           (R + self_V m ! i ! j * cos (self_U m ! i ! j / 2)) * cos (self_U m ! i ! j)
       \<and> self_Y m ! i ! j =
           (R + self_V m ! i ! j * cos (self_U m ! i ! j / 2)) * sin (self_U m ! i ! j)
       \<and> self_Z m ! i ! j = self_V m ! i ! j * sin (self_U m ! i ! j / 2)"
  using init_XYZ_nth[OF assms] by simp

theorem surface_points_formula_witness:
  "\<exists>m. init 1 1 3 = Inr m
     \<and> self_X m ! 1 ! 2 = (1 + self_V m ! 1 ! 2 * cos (self_U m ! 1 ! 2 / 2)) * cos (self_U m ! 1 ! 2)
     \<and> self_Y m ! 1 ! 2 = (1 + self_V m ! 1 ! 2 * cos (self_U m ! 1 ! 2 / 2)) * sin (self_U m ! 1 ! 2)
     \<and> self_Z m ! 1 ! 2 = self_V m ! 1 ! 2 * sin (self_U m ! 1 ! 2 / 2)"
proof -
  obtain m where m: "init 1 1 3 = Inr m" using init_ok[of 3 1 1] by auto
  have "(1::nat) < nat 3" "(2::nat) < nat 3" by simp_all
  from surface_points_formula[OF m this] m show ?thesis by (intro exI[of _ m]) simp
qed

lemma seam_last:
  assumes "init R w n = Inr m" "2 \<le> n" "i < nat n"
  shows "self_X m ! i ! (nat n - 1) = R - self_v m ! i"
    "self_Y m ! i ! (nat n - 1) = 0" "self_Z m ! i ! (nat n - 1) = 0"
proof -
  have lt: "nat n - 1 < nat n" using assms(2) by simp
  note uv = init_UV_nth[OF assms(1,3) lt] init_u_last[OF assms(1,2)]
  show "self_X m ! i ! (nat n - 1) = R - self_v m ! i"
    unfolding init_XYZ_nth(1)[OF assms(1,3) lt] uv by simp
  show "self_Y m ! i ! (nat n - 1) = 0"
    unfolding init_XYZ_nth(2)[OF assms(1,3) lt] uv by simp
  show "self_Z m ! i ! (nat n - 1) = 0"
    unfolding init_XYZ_nth(3)[OF assms(1,3) lt] uv by simp
qed

lemma seam_first:
  assumes "init R w n = Inr m" "2 \<le> n" "i < nat n"
  shows "self_X m ! i ! 0 = R + self_v m ! i"
    "self_Y m ! i ! 0 = 0" "self_Z m ! i ! 0 = 0"
proof -
  have lt: "0 < nat n" using assms(2) by simp
  have u0: "self_u m ! 0 = 0" using init_u_nth[OF assms(1,2) lt] by simp
  note uv = init_UV_nth[OF assms(1,3) lt] u0
  show "self_X m ! i ! 0 = R + self_v m ! i"
    unfolding init_XYZ_nth(1)[OF assms(1,3) lt] uv by simp
  show "self_Y m ! i ! 0 = 0"
    unfolding init_XYZ_nth(2)[OF assms(1,3) lt] uv by simp
  show "self_Z m ! i ! 0 = 0"
    unfolding init_XYZ_nth(3)[OF assms(1,3) lt] uv by simp
qed

text \<open>
  Claim C9. For \<open>n \<ge> 2\<close> the last column of the point arrays is the first column with the
  rows reversed: the point at \<open>(i, n-1)\<close> and the point at \<open>(n-1-i, 0)\<close> are both
  \<open>(R - v[i], 0, 0)\<close>.
\<close>

theorem half_twist_seam:
  assumes "2 \<le> n" "init R w n = Inr m" "i < nat n"
  shows "self_X m ! i ! (nat n - 1) = self_X m ! (nat n - 1 - i) ! 0
       \<and> self_Y m ! i ! (nat n - 1) = self_Y m ! (nat n - 1 - i) ! 0
       \<and> self_Z m ! i ! (nat n - 1) = self_Z m ! (nat n - 1 - i) ! 0
       \<and> self_X m ! i ! (nat n - 1) = R - self_v m ! i
       \<and> self_Y m ! i ! (nat n - 1) = 0
       \<and> self_Z m ! i ! (nat n - 1) = 0"
proof -
  have lt: "nat n - 1 - i < nat n" using assms(1) by simp
  show ?thesis
    using seam_last[OF assms(2,1,3)] seam_first[OF assms(2,1) lt] init_v_mirror[OF assms(2,1,3)]
    by simp
qed

theorem half_twist_seam_witness:
  "\<exists>m. init 1 1 3 = Inr m
     \<and> self_X m ! 0 ! 2 = self_X m ! 2 ! 0 \<and> self_Y m ! 0 ! 2 = self_Y m ! 2 ! 0
     \<and> self_Z m ! 0 ! 2 = self_Z m ! 2 ! 0
     \<and> self_X m ! 0 ! 2 = 1 - self_v m ! 0 \<and> self_Y m ! 0 ! 2 = 0 \<and> self_Z m ! 0 ! 2 = 0"
proof -
  obtain m where m: "init 1 1 3 = Inr m" using init_ok[of 3 1 1] by auto
  have "(2::int) \<le> 3" "(0::nat) < nat 3" by simp_all
  from half_twist_seam[OF this(1) m this(2)] m show ?thesis by (intro exI[of _ m]) simp
qed

text \<open>
  Claim C10. For \<open>n \<ge> 2\<close> the array \<open>Z\<close> changes sign under reversal of the rows, and for
  odd \<open>n\<close> its middle row is zero.
\<close>

theorem Z_antisymmetric:
  assumes "2 \<le> n" "init R w n = Inr m" "i < nat n" "j < nat n"
  shows "self_Z m ! (nat n - 1 - i) ! j = - self_Z m ! i ! j
       \<and> (odd n \<longrightarrow> self_Z m ! ((nat n - 1) div 2) ! j = 0)"
proof -
  have lt: "nat n - 1 - i < nat n" using assms(1) by simp
  have anti: "self_Z m ! (nat n - 1 - k) ! j = - self_Z m ! k ! j" if "k < nat n" for k
  proof -
    have lt: "nat n - 1 - k < nat n" using assms(1) by simp
    show ?thesis
      unfolding init_XYZ_nth(3)[OF assms(2) lt assms(4)] init_XYZ_nth(3)[OF assms(2) that assms(4)]
        init_UV_nth[OF assms(2) lt assms(4)] init_UV_nth[OF assms(2) that assms(4)]
        init_v_mirror[OF assms(2,1) that]
      by simp
  qed
  have "self_Z m ! ((nat n - 1) div 2) ! j = 0" if "odd n"
  proof -
    have "odd (nat n)" using that assms(1) by (simp add: even_nat_iff)
    then obtain k where k: "nat n = 2 * k + 1" by (auto elim: oddE)
    have mid: "(nat n - 1) div 2 = k" "nat n - 1 - k = k" "k < nat n" using k by simp_all
    show ?thesis using anti[OF mid(3)] mid by simp
  qed
  then show ?thesis using anti[OF assms(3)] by simp
qed

theorem Z_antisymmetric_witness:
  "\<exists>m. init 1 1 3 = Inr m \<and> self_Z m ! 2 ! 1 = - self_Z m ! 0 ! 1 \<and> self_Z m ! 1 ! 1 = 0"
proof -
  obtain m where m: "init 1 1 3 = Inr m" using init_ok[of 3 1 1] by auto
  have "(2::int) \<le> 3" "(0::nat) < nat 3" "(1::nat) < nat 3" by simp_all
  from Z_antisymmetric[OF this(1) m this(2,3)] m show ?thesis by (intro exI[of _ m]) simp
qed

subsection \<open>Construction\<close>

text \<open>
  Claim C1, as stated, fails: \<^verbatim>\<open>__init__\<close> checks none of its arguments and the source
  has no \<^verbatim>\<open>InvalidConfig\<close>. With \<open>R = 0\<close>, \<open>w = -1\<close> and \<open>n = 1\<close> (each of the three is
  outside the range the claim allows) construction returns an instance with \<open>1 \<times> 1\<close> grid
  and point arrays.
\<close>

theorem construction_unvalidated_counterexample:
  "init 0 (- 1) 1 =
     Inr \<lparr>self_R = 0, self_w = - 1, self_n = 1, self_u = [0], self_v = [1 / 2],
          self_U = [[0]], self_V = [[1 / 2]],
          self_X = [[1 / 2]], self_Y = [[0]], self_Z = [[0]]\<rparr>"
  by (simp add: init_def linspace_def meshgrid_def compute_points_def arr_map_def arr_zip_def)

text \<open>
  Claim C1, amended. Construction never rejects a configuration: for every \<open>R\<close> and \<open>w\<close>
  and every \<open>n \<ge> 0\<close> it succeeds, stores the three arguments and produces \<open>u\<close>, \<open>v\<close> of
  length \<open>n\<close> and \<open>U\<close>, \<open>V\<close>, \<open>X\<close>, \<open>Y\<close>, \<open>Z\<close> of shape \<open>n \<times> n\<close>. Only \<open>n < 0\<close> fails, with
  the \<^verbatim>\<open>ValueError\<close> of the first \<^verbatim>\<open>linspace\<close> call, before any array exists.
\<close>

theorem construction_unvalidated:
  "(n < 0 \<longrightarrow> init R w n = Inl ValueError)
   \<and> (0 \<le> n \<longrightarrow>
        (\<exists>m. init R w n = Inr m \<and> self_R m = R \<and> self_w m = w \<and> self_n m = n
           \<and> length (self_u m) = nat n \<and> length (self_v m) = nat n
           \<and> shape (self_U m) (nat n) (nat n) \<and> shape (self_V m) (nat n) (nat n)
           \<and> shape (self_X m) (nat n) (nat n) \<and> shape (self_Y m) (nat n) (nat n)
           \<and> shape (self_Z m) (nat n) (nat n)))"
proof (intro conjI impI)
  assume "n < 0" then show "init R w n = Inl ValueError" by (rule init_neg)
next
  assume "0 \<le> n"
  then obtain m where m: "init R w n = Inr m" using init_ok by blast
  show "\<exists>m. init R w n = Inr m \<and> self_R m = R \<and> self_w m = w \<and> self_n m = n
           \<and> length (self_u m) = nat n \<and> length (self_v m) = nat n
           \<and> shape (self_U m) (nat n) (nat n) \<and> shape (self_V m) (nat n) (nat n)
           \<and> shape (self_X m) (nat n) (nat n) \<and> shape (self_Y m) (nat n) (nat n)
           \<and> shape (self_Z m) (nat n) (nat n)"
    using m init_fields(1,2,3)[OF m] init_lengths(2,3)[OF m] init_shape_UV[OF m] init_shape_XYZ[OF m]
    by (intro exI[of _ m]) simp
qed

theorem construction_unvalidated_witness:
  "init 1 1 (- 1) = Inl ValueError
   \<and> (\<exists>m. init 0 (- 1) 1 = Inr m \<and> self_R m = 0 \<and> self_w m = - 1 \<and> self_n m = 1
         \<and> length (self_u m) = 1 \<and> length (self_X m) = 1 \<and> length (self_X m ! 0) = 1)"
proof -
  have a: "init 1 1 (- 1) = Inl ValueError" using construction_unvalidated[of "- 1" 1 1] by simp
  have "\<exists>m. init 0 (- 1) 1 = Inr m \<and> self_R m = 0 \<and> self_w m = - 1 \<and> self_n m = 1
         \<and> length (self_u m) = 1 \<and> length (self_X m) = 1 \<and> length (self_X m ! 0) = 1"
    using construction_unvalidated[of 1 0 "- 1"] by (auto simp: shape_def)
  with a show ?thesis by simp
qed

subsection \<open>The queries leave the instance alone\<close>

text \<open>
  Running the statements of a query: a \<open>load\<close> and a \<open>call\<close> hand the instance on, and
  the result is the one of the value-level definition of the method.
\<close>

lemma seq_load_eq: "k (attr self) self = (r, self') \<Longrightarrow> seq (load attr) k self = (r, self')"
  by (simp add: seq_def load_def)

lemma seq_call_eq:
  "(\<And>a. k a self = (g a, self)) \<Longrightarrow> seq (call r) k self = (and_then r g, self)"
  by (cases r) (simp_all add: seq_def call_def and_then_def)

lemma seq_call_ret_eq: "seq (call r) ret self = (r, self)"
  by (cases r) (simp_all add: seq_def call_def ret_def)

lemma ret_eq: "ret a self = (Inr a, self)"
  by (simp add: ret_def)

lemma surface_area_call_eq: "surface_area_call self = (surface_area self, self)"
  unfolding surface_area_call_def surface_area_def Let_def
  by (intro seq_load_eq seq_call_eq seq_call_ret_eq)

lemma edge_loop_call_eq: "edge_loop_call vs t self = (edge_loop self vs t, self)"
proof (induction vs arbitrary: t)
  case Nil
  show ?case by (simp add: ret_eq)
next
  case (Cons v_idx rest)
  show ?case
    unfolding edge_loop_call.simps edge_loop.simps Let_def
    by (intro seq_load_eq seq_call_eq Cons.IH)
qed

lemma edge_length_call_eq: "edge_length_call self = (edge_length self, self)"
  unfolding edge_length_call_def edge_length_def by (rule edge_loop_call_eq)

text \<open>
  The constructor, run on any object, performs its stores and leaves the instance that
  \<^const>\<open>init\<close> describes; a raising \<^verbatim>\<open>linspace\<close> ends it with that exception.
\<close>

lemma seq_store: "seq (store upd a) k self = k () (upd (\<lambda>_. a) self)"
  by (simp add: seq_def store_def)

lemma seq_load: "seq (load attr) k self = k (attr self) self"
  by (simp add: seq_def load_def)

lemma seq_ret: "seq (ret a) k self = k a self"
  by (simp add: seq_def ret_def)

lemma seq_call_Inr: "seq (call (Inr a)) k self = k a self"
  by (simp add: seq_def call_def)

lemma seq_call_Inl: "seq (call (Inl e)) k self = (Inl e, self)"
  by (simp add: seq_def call_def)

lemma compute_points_call_run:
  "seq compute_points_call k self = k (compute_points (self_R self) (self_U self) (self_V self)) self"
  by (simp add: compute_points_call_def seq_def load_def ret_def)

lemma init_call_success:
  assumes "init R w n = Inr m"
  shows "init_call R w n self = (Inr (), m)"
proof -
  obtain us vs where l: "linspace 0 (2 * pi) n = Inr us" "linspace (- w / 2) (w / 2) n = Inr vs"
    using assms unfolding init_def by (auto split: sum.splits)
  obtain U0 V0 where mg: "meshgrid us vs = (U0, V0)" by (cases "meshgrid us vs")
  obtain X Y Z where cp: "compute_points R U0 V0 = (X, Y, Z)"
    by (cases "compute_points R U0 V0") auto
  have m: "m = \<lparr>self_R = R, self_w = w, self_n = n, self_u = us, self_v = vs,
                 self_U = U0, self_V = V0, self_X = X, self_Y = Y, self_Z = Z\<rparr>"
    using assms unfolding init_def l by (simp add: mg cp)
  have "init_call R w n self =
          (Inr (), self\<lparr>self_R := R, self_w := w, self_n := n, self_u := us, self_v := vs,
                        self_U := U0, self_V := V0, self_X := X, self_Y := Y, self_Z := Z\<rparr>)"
    unfolding init_call_def seq_store l seq_call_Inr seq_load seq_ret
    by (simp add: mg seq_store compute_points_call_run cp store_def)
  then show ?thesis unfolding m by (cases self) simp
qed

lemma init_call_failure:
  assumes "init R w n = Inl e"
  shows "fst (init_call R w n self) = Inl e"
proof (cases "linspace 0 (2 * pi) n")
  case (Inl e1)
  then have "e1 = e" using assms unfolding init_def by simp
  then show ?thesis unfolding init_call_def seq_store Inl seq_call_Inl by simp
next
  case (Inr us)
  obtain e2 where l2: "linspace (- w / 2) (w / 2) n = Inl e2"
    using assms unfolding init_def Inr
    by (cases "linspace (- w / 2) (w / 2) n") (auto split: prod.splits)
  have "e2 = e" using assms unfolding init_def Inr l2 by simp
  then show ?thesis unfolding init_call_def seq_store Inr seq_call_Inr l2 seq_call_Inl by simp
qed

text \<open>
  Claim C8. A call of \<^verbatim>\<open>surface_area\<close> or of \<^verbatim>\<open>edge_length\<close>, run statement by
  statement on an instance, leaves every attribute of the instance as it was and returns
  the value (or exception) of the method; a further call of either query, after any of
  the two, returns what it returned before.
\<close>

theorem queries_side_effect_free:
  "snd (surface_area_call m) = m \<and> snd (edge_length_call m) = m
   \<and> fst (surface_area_call m) = surface_area m \<and> fst (edge_length_call m) = edge_length m
   \<and> fst (surface_area_call (snd (surface_area_call m))) = fst (surface_area_call m)
   \<and> fst (edge_length_call (snd (edge_length_call m))) = fst (edge_length_call m)
   \<and> fst (surface_area_call (snd (edge_length_call m))) = fst (surface_area_call m)
   \<and> fst (edge_length_call (snd (surface_area_call m))) = fst (edge_length_call m)"
proof -
  have area: "surface_area_call m = (surface_area m, m)" by (rule surface_area_call_eq)
  have edge: "edge_length_call m = (edge_length m, m)" by (rule edge_length_call_eq)
  have frame: "snd (surface_area_call m) = m" "snd (edge_length_call m) = m"
    unfolding area edge by simp_all
  have val: "fst (surface_area_call m) = surface_area m" "fst (edge_length_call m) = edge_length m"
    unfolding area edge by simp_all
  show ?thesis unfolding frame using val by simp
qed

subsection \<open>Edge length\<close>

lemma diff_length: "length (diff xs) = length xs - 1"
  by (simp add: diff_def)

lemma diff_nth: "j < length xs - 1 \<Longrightarrow> diff xs ! j = xs ! (j + 1) - xs ! j"
  by (simp add: diff_def nth_tl)

lemma row_norms:
  assumes "length xs = L" "length ys = L" "length zs = L"
  shows "map sqrt
           (map2 (\<lambda>a b. a + b)
              (map2 (\<lambda>a b. a + b) (map (\<lambda>a. a ^ 2) (diff xs)) (map (\<lambda>a. a ^ 2) (diff ys)))
              (map (\<lambda>a. a ^ 2) (diff zs)))
       = map (\<lambda>j. sqrt ((xs ! (j + 1) - xs ! j) ^ 2 + (ys ! (j + 1) - ys ! j) ^ 2
                       + (zs ! (j + 1) - zs ! j) ^ 2)) [0..<L - 1]"
  using assms by (intro nth_equalityI) (simp_all add: diff_length diff_nth)

lemma getitem_first: "0 < length xs \<Longrightarrow> getitem xs 0 = Inr (xs ! 0)"
  by (simp add: getitem_def)

lemma getitem_second: "1 < length xs \<Longrightarrow> getitem xs 1 = Inr (xs ! 1)"
  by (simp add: getitem_def)

lemma getitem_last: "0 < length xs \<Longrightarrow> getitem xs (- 1) = Inr (xs ! (length xs - 1))"
  by (auto simp: getitem_def Let_def nat_diff_distrib' of_nat_diff)

lemma and_then_Inr: "and_then (Inr a) f = f a"
  by (simp add: and_then_def)

lemma shape_row: "shape A r c \<Longrightarrow> i < r \<Longrightarrow> length (A ! i) = c"
  by (simp add: shape_def)

lemma shape_rows: "shape A r c \<Longrightarrow> length A = r"
  by (simp add: shape_def)

lemma row_length_sum:
  assumes "length xs = L" "length ys = L" "length zs = L"
  shows "sum_list (map sqrt
           (map2 (\<lambda>a b. a + b)
              (map2 (\<lambda>a b. a + b) (map (\<lambda>a. a ^ 2) (diff xs)) (map (\<lambda>a. a ^ 2) (diff ys)))
              (map (\<lambda>a. a ^ 2) (diff zs))))
       = (\<Sum>j = 0..<L - 1. sqrt ((xs ! (j + 1) - xs ! j) ^ 2 + (ys ! (j + 1) - ys ! j) ^ 2
                       + (zs ! (j + 1) - zs ! j) ^ 2))"
  unfolding row_norms[OF assms] by (simp add: interv_sum_list_conv_sum_set_nat)

lemma edge_length_value:
  assumes "1 \<le> n" "init R w n = Inr m"
  shows "edge_length m = Inr (polyline_length m 0 + polyline_length m (nat n - 1))"
proof -
  note sh = init_shape_XYZ[OF assms(2)]
  have pos: "0 < nat n" and last: "nat n - 1 < nat n" using assms(1) by simp_all
  have len: "length (self_X m) = nat n" "length (self_Y m) = nat n" "length (self_Z m) = nat n"
    using sh by (simp_all add: shape_def)
  have rows: "length (self_X m ! r) = nat n" "length (self_Y m ! r) = nat n"
    "length (self_Z m ! r) = nat n" if "r < nat n" for r
    using sh that by (simp_all add: shape_def)
  have g0: "getitem (self_X m) 0 = Inr (self_X m ! 0)" "getitem (self_Y m) 0 = Inr (self_Y m ! 0)"
    "getitem (self_Z m) 0 = Inr (self_Z m ! 0)"
    using pos len by (simp_all add: getitem_first)
  have g1: "getitem (self_X m) (- 1) = Inr (self_X m ! (nat n - 1))"
    "getitem (self_Y m) (- 1) = Inr (self_Y m ! (nat n - 1))"
    "getitem (self_Z m) (- 1) = Inr (self_Z m ! (nat n - 1))"
    using pos len getitem_last[of "self_X m"] getitem_last[of "self_Y m"] getitem_last[of "self_Z m"]
    by simp_all
  show ?thesis
    unfolding edge_length_def edge_loop.simps g0 g1 and_then_Inr Let_def
      row_length_sum[OF rows(1)[OF pos] rows(2)[OF pos] rows(3)[OF pos]]
      row_length_sum[OF rows(1)[OF last] rows(2)[OF last] rows(3)[OF last]]
    by (simp add: polyline_length_def segment_length_def init_fields(3)[OF assms(2)])
qed

text \<open>
  Claim C4. For a valid configuration \<^verbatim>\<open>edge_length\<close> returns the length of grid row
  \<open>0\<close> plus the length of grid row \<open>n - 1\<close>, each as an open polyline of \<open>n - 1\<close> segments
  between consecutive samples.
\<close>

theorem edge_length_open_polylines:
  assumes "0 < R" "0 < w" "2 \<le> n" "init R w n = Inr m"
  shows "edge_length m = Inr (polyline_length m 0 + polyline_length m (nat n - 1))"
  using edge_length_value[OF _ assms(4)] assms(3) by simp

theorem edge_length_open_polylines_witness:
  "\<exists>m. init 1 1 3 = Inr m \<and> edge_length m = Inr (polyline_length m 0 + polyline_length m 2)"
proof -
  obtain m where m: "init 1 1 3 = Inr m" using init_ok[of 3 1 1] by auto
  have "(0::real) < 1" "(2::int) \<le> 3" by simp_all
  from edge_length_open_polylines[OF this(1) this(1) this(2) m] m
  show ?thesis by (intro exI[of _ m]) simp
qed

subsection \<open>Surface area\<close>

lemma ncols_shape: "shape A r c \<Longrightarrow> 0 < r \<Longrightarrow> ncols A = c"
  by (cases A) (auto simp: shape_def ncols_def)

lemma gradient1_length: "length (gradient1 f) = length f"
  by (simp add: gradient1_def)

lemma gradient1_nth: "k < length f \<Longrightarrow> gradient1 f ! k = central_diff (\<lambda>t. f ! t) (length f) k"
  by (auto simp: gradient1_def central_diff_def numeral_2_eq_2)

lemma transpose_shape: "shape A r c \<Longrightarrow> 0 < r \<Longrightarrow> shape (transpose_arr A) c r"
  by (simp add: transpose_arr_def ncols_shape) (simp add: shape_def column_def)

lemma transpose_nth:
  "shape A r c \<Longrightarrow> i < r \<Longrightarrow> j < c \<Longrightarrow> transpose_arr A ! j ! i = A ! i ! j"
  by (simp add: transpose_arr_def ncols_shape) (simp add: shape_def column_def)

lemma gradient_axis1:
  assumes "shape A r c" "0 < r" "2 \<le> c"
  shows "\<exists>G. gradient A 1 = Inr G \<and> shape G r c
           \<and> (\<forall>i<r. \<forall>j<c. G ! i ! j = central_diff (\<lambda>t. A ! i ! t) c j)"
proof -
  have "gradient A 1 = Inr (map gradient1 A)"
    using assms by (simp add: gradient_def ncols_shape)
  moreover have "shape (map gradient1 A) r c"
    using assms(1) by (simp add: shape_def gradient1_length)
  moreover have "\<forall>i<r. \<forall>j<c. map gradient1 A ! i ! j = central_diff (\<lambda>t. A ! i ! t) c j"
    using assms(1) by (simp add: shape_def gradient1_nth)
  ultimately show ?thesis by blast
qed

lemma gradient_axis0:
  assumes "shape A r c" "2 \<le> r" "0 < c"
  shows "\<exists>G. gradient A 0 = Inr G \<and> shape G r c
           \<and> (\<forall>i<r. \<forall>j<c. G ! i ! j = central_diff (\<lambda>t. A ! t ! j) r i)"
proof -
  define T where "T = transpose_arr A"
  define G where "G = map gradient1 T"
  have r: "0 < r" using assms(2) by simp
  have T: "shape T c r" unfolding T_def using assms(1) r by (rule transpose_shape)
  have G: "shape G c r" using T by (simp add: G_def shape_def gradient1_length)
  have Gn: "G ! j ! i = central_diff (\<lambda>t. A ! t ! j) r i" if "i < r" "j < c" for i j
  proof -
    have "G ! j ! i = central_diff (\<lambda>t. T ! j ! t) r i"
      using T that by (simp add: G_def shape_def gradient1_nth)
    also have "\<dots> = central_diff (\<lambda>t. A ! t ! j) r i"
      using that assms(2) transpose_nth[OF assms(1) _ that(2)]
      by (auto simp: central_diff_def T_def)
    finally show ?thesis .
  qed
  have "gradient A 0 = Inr (transpose_arr G)"
    using assms(1,2) by (simp add: gradient_def nrows_def shape_def G_def T_def)
  moreover have "shape (transpose_arr G) r c" using G assms(3) by (rule transpose_shape)
  moreover have "\<forall>i<r. \<forall>j<c. transpose_arr G ! i ! j = central_diff (\<lambda>t. A ! t ! j) r i"
    using transpose_nth[OF G] Gn by simp
  ultimately show ?thesis by blast
qed

lemma column_nth_map: "column A j = map (\<lambda>i. A ! i ! j) [0..<length A]"
  unfolding column_def by (intro nth_equalityI) simp_all

lemma transpose_columns:
  assumes "shape A r c" "0 < r"
  shows "transpose_arr A = map (\<lambda>j. map (\<lambda>i. A ! i ! j) [0..<r]) [0..<c]"
proof -
  have "ncols A = c" "length A = r" using assms by (simp_all add: ncols_shape shape_rows)
  then show ?thesis by (simp add: transpose_arr_def column_nth_map)
qed

lemma surface_area_value:
  assumes "2 \<le> n" "init R w n = Inr m"
  shows "surface_area m = Inr (quadrature_area simps_core m)"
proof -
  define N where "N = nat n"
  have N2: "2 \<le> N" "0 < N" "1 < N" using assms(1) by (simp_all add: N_def)
  note sh = init_shape_XYZ[OF assms(2), folded N_def]
  note len = init_lengths(2,3)[OF assms(2), folded N_def]
  have nN: "nat (self_n m) = N" by (simp add: init_fields(3)[OF assms(2)] N_def)
  have gu: "getitem (self_u m) 1 = Inr (self_u m ! 1)" "getitem (self_u m) 0 = Inr (self_u m ! 0)"
    and gv: "getitem (self_v m) 1 = Inr (self_v m ! 1)" "getitem (self_v m) 0 = Inr (self_v m ! 0)"
    using len N2 by (simp_all add: getitem_first getitem_second)
  define du where "du = self_u m ! 1 - self_u m ! 0"
  define dv where "dv = self_v m ! 1 - self_v m ! 0"
  obtain gXu where gXu: "gradient (self_X m) 1 = Inr gXu" "shape gXu N N"
    "\<forall>i<N. \<forall>j<N. gXu ! i ! j = central_diff (\<lambda>t. self_X m ! i ! t) N j"
    using gradient_axis1[OF sh(1) N2(2) N2(1)] by blast
  obtain gYu where gYu: "gradient (self_Y m) 1 = Inr gYu" "shape gYu N N"
    "\<forall>i<N. \<forall>j<N. gYu ! i ! j = central_diff (\<lambda>t. self_Y m ! i ! t) N j"
    using gradient_axis1[OF sh(2) N2(2) N2(1)] by blast
  obtain gZu where gZu: "gradient (self_Z m) 1 = Inr gZu" "shape gZu N N"
    "\<forall>i<N. \<forall>j<N. gZu ! i ! j = central_diff (\<lambda>t. self_Z m ! i ! t) N j"
    using gradient_axis1[OF sh(3) N2(2) N2(1)] by blast
  obtain gXv where gXv: "gradient (self_X m) 0 = Inr gXv" "shape gXv N N"
    "\<forall>i<N. \<forall>j<N. gXv ! i ! j = central_diff (\<lambda>t. self_X m ! t ! j) N i"
    using gradient_axis0[OF sh(1) N2(1) N2(2)] by blast
  obtain gYv where gYv: "gradient (self_Y m) 0 = Inr gYv" "shape gYv N N"
    "\<forall>i<N. \<forall>j<N. gYv ! i ! j = central_diff (\<lambda>t. self_Y m ! t ! j) N i"
    using gradient_axis0[OF sh(2) N2(1) N2(2)] by blast
  obtain gZv where gZv: "gradient (self_Z m) 0 = Inr gZv" "shape gZv N N"
    "\<forall>i<N. \<forall>j<N. gZv ! i ! j = central_diff (\<lambda>t. self_Z m ! t ! j) N i"
    using gradient_axis0[OF sh(3) N2(1) N2(2)] by blast
  define Xu where "Xu = arr_map (\<lambda>a. a / du) gXu"
  define Yu where "Yu = arr_map (\<lambda>a. a / du) gYu"
  define Zu where "Zu = arr_map (\<lambda>a. a / du) gZu"
  define Xv where "Xv = arr_map (\<lambda>a. a / dv) gXv"
  define Yv where "Yv = arr_map (\<lambda>a. a / dv) gYv"
  define Zv where "Zv = arr_map (\<lambda>a. a / dv) gZv"
  define Nx where "Nx = arr_zip (\<lambda>a b. a - b) (arr_zip (\<lambda>a b. a * b) Yu Zv) (arr_zip (\<lambda>a b. a * b) Zu Yv)"
  define Ny where "Ny = arr_zip (\<lambda>a b. a - b) (arr_zip (\<lambda>a b. a * b) Zu Xv) (arr_zip (\<lambda>a b. a * b) Xu Zv)"
  define Nz where "Nz = arr_zip (\<lambda>a b. a - b) (arr_zip (\<lambda>a b. a * b) Xu Yv) (arr_zip (\<lambda>a b. a * b) Yu Xv)"
  define dA where "dA = arr_map sqrt
                (arr_zip (\<lambda>a b. a + b)
                   (arr_zip (\<lambda>a b. a + b) (arr_map (\<lambda>a. a ^ 2) Nx) (arr_map (\<lambda>a. a ^ 2) Ny))
                   (arr_map (\<lambda>a. a ^ 2) Nz))"
  have shT: "shape Xu N N" "shape Yu N N" "shape Zu N N" "shape Xv N N" "shape Yv N N" "shape Zv N N"
    unfolding Xu_def Yu_def Zu_def Xv_def Yv_def Zv_def
    using gXu(2) gYu(2) gZu(2) gXv(2) gYv(2) gZv(2) by (simp_all add: shape_arr_map)
  have shN: "shape Nx N N" "shape Ny N N" "shape Nz N N"
    unfolding Nx_def Ny_def Nz_def using shT by (simp_all add: shape_arr_zip)
  have shA: "shape dA N N"
    unfolding dA_def using shN by (simp add: shape_arr_zip shape_arr_map)
  have T: "Xu ! i ! j = central_diff (\<lambda>t. self_X m ! i ! t) N j / du"
    "Yu ! i ! j = central_diff (\<lambda>t. self_Y m ! i ! t) N j / du"
    "Zu ! i ! j = central_diff (\<lambda>t. self_Z m ! i ! t) N j / du"
    "Xv ! i ! j = central_diff (\<lambda>t. self_X m ! t ! j) N i / dv"
    "Yv ! i ! j = central_diff (\<lambda>t. self_Y m ! t ! j) N i / dv"
    "Zv ! i ! j = central_diff (\<lambda>t. self_Z m ! t ! j) N i / dv"
    if "i < N" "j < N" for i j
    unfolding Xu_def Yu_def Zu_def Xv_def Yv_def Zv_def
    using that gXu(2,3) gYu(2,3) gZu(2,3) gXv(2,3) gYv(2,3) gZv(2,3)
    by (simp_all add: arr_map_nth[where r=N and c=N])
  have Nn: "Nx ! i ! j = Yu ! i ! j * Zv ! i ! j - Zu ! i ! j * Yv ! i ! j"
    "Ny ! i ! j = Zu ! i ! j * Xv ! i ! j - Xu ! i ! j * Zv ! i ! j"
    "Nz ! i ! j = Xu ! i ! j * Yv ! i ! j - Yu ! i ! j * Xv ! i ! j"
    if "i < N" "j < N" for i j
    unfolding Nx_def Ny_def Nz_def using that shT
    by (simp_all add: arr_zip_nth[where r=N and c=N] shape_arr_zip)
  have An: "dA ! i ! j = area_element m i j" if "i < N" "j < N" for i j
  proof -
    have "dA ! i ! j = sqrt ((Nx ! i ! j) ^ 2 + (Ny ! i ! j) ^ 2 + (Nz ! i ! j) ^ 2)"
      unfolding dA_def using that shN
      by (simp add: arr_zip_nth[where r=N and c=N] arr_map_nth[where r=N and c=N]
          shape_arr_zip shape_arr_map)
    then show ?thesis
      unfolding Nn[OF that] T[OF that] area_element_def Let_def nN du_def dv_def by simp
  qed
  define area_v where "area_v = map (\<lambda>c. simps_core c (self_v m)) (transpose_arr dA)"
  have av: "simps_axis0 dA (self_v m) = Inr area_v"
    using shA len N2 by (simp add: simps_axis0_def nrows_def shape_def area_v_def)
  have tr: "transpose_arr dA = map (\<lambda>j. map (\<lambda>i. area_element m i j) [0..<N]) [0..<N]"
    unfolding transpose_columns[OF shA N2(2)] using An by simp
  have av_len: "length area_v = N" unfolding area_v_def tr by simp
  have fin: "simps area_v (self_u m) = Inr (simps_core area_v (self_u m))"
    using av_len len N2 by (simp add: simps_def)
  have "surface_area m = Inr (simps_core area_v (self_u m))"
    unfolding surface_area_def gu gv and_then_Inr Let_def
      gXu(1) gYu(1) gZu(1) gXv(1) gYv(1) gZv(1)
    unfolding du_def[symmetric] dv_def[symmetric]
      Xu_def[symmetric] Yu_def[symmetric] Zu_def[symmetric]
      Xv_def[symmetric] Yv_def[symmetric] Zv_def[symmetric]
    unfolding Nx_def[symmetric] Ny_def[symmetric] Nz_def[symmetric]
    unfolding dA_def[symmetric] av and_then_Inr fin ..
  also have "simps_core area_v (self_u m) = quadrature_area simps_core m"
    unfolding quadrature_area_def Let_def nN area_v_def tr by (simp add: comp_def)
  finally show ?thesis .
qed

text \<open>
  Claim C3. For a valid configuration \<^verbatim>\<open>surface_area\<close> returns the iterated quadrature
  of the area element: tangents by central differences inside and one-sided differences at
  the boundary, scaled by \<open>1/du\<close> and \<open>1/dv\<close>, the norm of their cross product, integrated
  along \<open>v\<close> for each column and then along \<open>u\<close>, both times by \<^verbatim>\<open>simps\<close>.
\<close>

theorem surface_area_algorithm:
  assumes "0 < R" "0 < w" "2 \<le> n" "init R w n = Inr m"
  shows "surface_area m = Inr (quadrature_area simps_core m)"
  using surface_area_value[OF assms(3,4)] .

theorem surface_area_algorithm_witness:
  "\<exists>m. init 1 1 3 = Inr m \<and> surface_area m = Inr (quadrature_area simps_core m)"
proof -
  obtain m where m: "init 1 1 3 = Inr m" using init_ok[of 3 1 1] by auto
  have "(0::real) < 1" "(2::int) \<le> 3" by simp_all
  from surface_area_algorithm[OF this(1) this(1) this(2) m] m
  show ?thesis by (intro exI[of _ m]) simp
qed

subsection \<open>The quadrature rule on uniformly spaced, non-negative samples\<close>

lemma slice2_length:
  "length (slice2 xs s e) =
     nat (((if e < 0 then max 0 (e + int (length xs)) else min e (int (length xs))) - int s + 1) div 2)"
  by (simp add: slice2_def Let_def)

lemma slice2_nth: "k < length (slice2 xs s e) \<Longrightarrow> slice2 xs s e ! k = xs ! (s + 2 * k)"
  by (simp add: slice2_def Let_def)

lemma slice2_in_range:
  assumes "k < length (slice2 xs s e)"
  shows "s + 2 * k < length xs"
proof -
  define E where "E = (if e < 0 then max 0 (e + int (length xs)) else min e (int (length xs)))"
  have E: "E \<le> int (length xs)" by (simp add: E_def)
  have "k < nat ((E - int s + 1) div 2)" using assms by (simp add: slice2_length E_def)
  then have "int k < (E - int s + 1) div 2" by linarith
  then have "2 * int k + 2 \<le> E - int s + 1" by linarith
  then show ?thesis using E by linarith
qed

lemma slice2_set: "set (slice2 xs s e) \<subseteq> set xs"
proof
  fix a assume "a \<in> set (slice2 xs s e)"
  then obtain k where k: "k < length (slice2 xs s e)" "a = slice2 xs s e ! k"
    by (auto simp: in_set_conv_nth)
  then show "a \<in> set xs" using slice2_in_range[OF k(1)] by (simp add: slice2_nth)
qed

lemma panel_uniform:
  fixes h :: real
  assumes "h \<noteq> 0"
  shows "(h + h) / 6 * (a * (2 - 1 / (h / h)) + b * ((h + h) * (h + h) / (h * h)) + c * (2 - h / h))
       = h / 3 * (a + 4 * b + c)"
  using assms by (simp add: field_simps)

lemma sum_list_ge_first:
  fixes xs :: "real list"
  assumes "\<forall>a\<in>set xs. 0 \<le> a" "xs \<noteq> []"
  shows "xs ! 0 \<le> sum_list xs"
  using assms by (cases xs) (simp_all add: sum_list_nonneg)

lemma diff_uniform:
  assumes "\<forall>k. k + 1 < length x \<longrightarrow> x ! (k + 1) - x ! k = h"
  shows "\<forall>p\<in>set (diff x). p = h"
proof
  fix p assume "p \<in> set (diff x)"
  then obtain k where k: "k < length (diff x)" "p = diff x ! k" by (auto simp: in_set_conv_nth)
  then have "k < length x - 1" by (simp add: diff_length)
  then show "p = h" using k(2) assms by (simp add: diff_nth)
qed

lemma panel_terms_nonneg:
  assumes "\<forall>a\<in>set y. 0 \<le> a" "\<forall>p\<in>set (diff x). p = h" "0 < h"
  shows "\<forall>r\<in>set (map (\<lambda>(a, b, c, p, q).
                       (p + q) / 6 * (a * (2 - 1 / (p / q))
                                     + b * ((p + q) * (p + q) / (p * q))
                                     + c * (2 - p / q)))
                    (zip (slice2 y s e) (zip (slice2 y (s + 1) (e + 1))
                      (zip (slice2 y (s + 2) (e + 2))
                        (zip (slice2 (diff x) s e) (slice2 (diff x) (s + 1) (e + 1))))))). 0 \<le> r"
proof -
  define F :: "real \<times> real \<times> real \<times> real \<times> real \<Rightarrow> real" where
    "F = (\<lambda>(a, b, c, p, q).
            (p + q) / 6 * (a * (2 - 1 / (p / q)) + b * ((p + q) * (p + q) / (p * q)) + c * (2 - p / q)))"
  define zs where "zs = zip (slice2 y s e) (zip (slice2 y (s + 1) (e + 1))
            (zip (slice2 y (s + 2) (e + 2)) (zip (slice2 (diff x) s e) (slice2 (diff x) (s + 1) (e + 1)))))"
  have hnz: "h \<noteq> 0" using assms(3) by simp
  have "0 \<le> F t" if t: "t \<in> set zs" for t
  proof -
    obtain a b c p q where tt: "t = (a, b, c, p, q)" by (cases t) auto
    note z = t[unfolded tt zs_def]
    note z1 = set_zip_rightD[OF z]
    note z2 = set_zip_rightD[OF z1]
    note z3 = set_zip_rightD[OF z2]
    note sub = slice2_set[THEN subsetD]
    have "a \<in> set y" "b \<in> set y" "c \<in> set y" "p \<in> set (diff x)" "q \<in> set (diff x)"
      by (rule sub[OF set_zip_leftD[OF z]], rule sub[OF set_zip_leftD[OF z1]],
          rule sub[OF set_zip_leftD[OF z2]], rule sub[OF set_zip_leftD[OF z3]],
          rule sub[OF set_zip_rightD[OF z3]])
    then have abc: "0 \<le> a" "0 \<le> b" "0 \<le> c" and pq: "p = h" "q = h"
      using assms(1,2) by blast+
    have Ft: "F t = h / 3 * (a + 4 * b + c)"
      unfolding tt F_def prod.case pq by (rule panel_uniform[OF hnz])
    have "0 \<le> h / 3 * (a + 4 * b + c)"
      using abc assms(3) by (intro mult_nonneg_nonneg) simp_all
    then show ?thesis unfolding Ft .
  qed
  then have "\<forall>r\<in>set (map F zs). 0 \<le> r" by auto
  then show ?thesis unfolding F_def zs_def .
qed

lemma basic_simps_nonneg:
  assumes "\<forall>a\<in>set y. 0 \<le> a" "\<forall>p\<in>set (diff x). p = h" "0 < h"
  shows "0 \<le> basic_simps y s e x"
  unfolding basic_simps_def Let_def
  using panel_terms_nonneg[OF assms] by (intro sum_list_nonneg) blast

lemma basic_simps_first:
  assumes "length y = N" "length x = N" "3 \<le> N"
    "\<forall>a\<in>set y. 0 \<le> a" "\<forall>k. k + 1 < length x \<longrightarrow> x ! (k + 1) - x ! k = h" "0 < h"
  shows "h / 3 * y ! 0 \<le> basic_simps y 0 (int N - 2) x"
proof -
  define F :: "real \<times> real \<times> real \<times> real \<times> real \<Rightarrow> real" where
    "F = (\<lambda>(a, b, c, p, q).
            (p + q) / 6 * (a * (2 - 1 / (p / q)) + b * ((p + q) * (p + q) / (p * q)) + c * (2 - p / q)))"
  define zs where "zs = zip (slice2 y 0 (int N - 2)) (zip (slice2 y (0 + 1) (int N - 2 + 1))
            (zip (slice2 y (0 + 2) (int N - 2 + 2))
              (zip (slice2 (diff x) 0 (int N - 2)) (slice2 (diff x) (0 + 1) (int N - 2 + 1)))))"
  have bs: "basic_simps y 0 (int N - 2) x = sum_list (map F zs)"
    unfolding basic_simps_def Let_def F_def zs_def ..
  have du: "\<forall>p\<in>set (diff x). p = h" by (rule diff_uniform[OF assms(5)])
  have nn: "\<forall>r\<in>set (map F zs). 0 \<le> r"
    unfolding F_def zs_def by (rule panel_terms_nonneg[OF assms(4) du assms(6)])
  have pos: "0 < (int N - 1) div 2" using assms(3) by linarith
  have l: "0 < length (slice2 y 0 (int N - 2))" "0 < length (slice2 y (0 + 1) (int N - 2 + 1))"
    "0 < length (slice2 y (0 + 2) (int N - 2 + 2))"
    "0 < length (slice2 (diff x) 0 (int N - 2))" "0 < length (slice2 (diff x) (0 + 1) (int N - 2 + 1))"
    using assms(1,2,3) pos by (simp_all add: slice2_length diff_length min_def)
  have zl: "0 < length zs" unfolding zs_def using l by simp
  have z0: "zs ! 0 = (y ! 0, y ! 1, y ! 2, diff x ! 0, diff x ! 1)"
    unfolding zs_def using l by (simp add: slice2_nth numeral_2_eq_2)
  have d: "diff x ! 0 = h" "diff x ! 1 = h"
    using du assms(2,3) by (simp_all add: diff_length)
  have hnz: "h \<noteq> 0" using assms(6) by simp
  have "map F zs ! 0 = h / 3 * (y ! 0 + 4 * y ! 1 + y ! 2)"
    using zl unfolding nth_map[OF zl] z0 d F_def prod.case by (simp only: panel_uniform[OF hnz])
  moreover have "0 \<le> y ! 1" "0 \<le> y ! 2" using assms(1,3,4) by simp_all
  moreover have "map F zs ! 0 \<le> sum_list (map F zs)"
    using zl by (intro sum_list_ge_first[OF nn]) simp
  moreover have "h / 3 * y ! 0 \<le> h / 3 * (y ! 0 + 4 * y ! 1 + y ! 2)"
    using assms(6) calculation(2,3) by (intro mult_left_mono) simp_all
  ultimately show ?thesis unfolding bs by linarith
qed

lemma basic_simps_two:
  assumes "length y = 2" "length x = 2"
  shows "basic_simps y 0 (- 1) x = 0" "basic_simps y 1 0 x = 0"
  using assms by (simp_all add: basic_simps_def slice2_def diff_def Let_def)

lemma simps_core_two:
  assumes "length y = 2" "length x = 2"
  shows "simps_core y x = trapz y x"
  using assms basic_simps_two[OF assms]
  by (simp add: simps_core_def trapz_def Let_def)

lemma simps_core_even_ge:
  assumes "length y = N" "length x = N" "even N" "2 \<le> N"
    "\<forall>a\<in>set y. 0 \<le> a" "\<forall>k. k + 1 < length x \<longrightarrow> x ! (k + 1) - x ! k = h" "0 < h"
  shows "h / 4 * y ! 0 \<le> simps_core y x"
proof -
  note du = diff_uniform[OF assms(6)]
  have b1: "0 \<le> basic_simps y 0 (int N - 3) x" and b2: "0 \<le> basic_simps y 1 (int N - 2) x"
    using basic_simps_nonneg[OF assms(5) du assms(7)] by simp_all
  have first: "x ! 1 - x ! 0 = h" using assms(2,4,6) by (metis One_nat_def Suc_1 Suc_le_lessD add.commute add.right_neutral plus_1_eq_Suc)
  have lst: "x ! (N - 1) - x ! (N - 2) = h"
  proof -
    have "(N - 2) + 1 < length x" "(N - 2) + 1 = N - 1" using assms(2,4) by simp_all
    then show ?thesis using assms(6) by metis
  qed
  have y: "0 \<le> y ! 0" "0 \<le> y ! 1" "0 \<le> y ! (N - 1)" "0 \<le> y ! (N - 2)"
    using assms(1,4,5) by simp_all
  have "simps_core y x =
          (basic_simps y 0 (int N - 3) x + basic_simps y 1 (int N - 2) x) / 2
          + (0.5 * h * (y ! (N - 1) + y ! (N - 2)) + 0.5 * h * (y ! 1 + y ! 0)) / 2"
  proof -
    have "x ! Suc 0 - x ! 0 = h" "x ! (N - Suc 0) - x ! (N - 2) = h" using first lst by simp_all
    then show ?thesis using assms(1,3) by (simp add: simps_core_def Let_def)
  qed
  moreover have "0 \<le> (basic_simps y 0 (int N - 3) x + basic_simps y 1 (int N - 2) x) / 2"
    using b1 b2 by simp
  moreover have "h / 4 * y ! 0 \<le> (0.5 * h * (y ! (N - 1) + y ! (N - 2)) + 0.5 * h * (y ! 1 + y ! 0)) / 2"
  proof -
    have "0 \<le> h * y ! (N - 1)" "0 \<le> h * y ! (N - 2)" "0 \<le> h * y ! 1"
      using y assms(7) by simp_all
    then show ?thesis by (simp add: algebra_simps)
  qed
  ultimately show ?thesis by linarith
qed

lemma simps_core_ge:
  assumes "length y = N" "length x = N" "2 \<le> N"
    "\<forall>a\<in>set y. 0 \<le> a" "\<forall>k. k + 1 < length x \<longrightarrow> x ! (k + 1) - x ! k = h" "0 < h"
  shows "h / 4 * y ! 0 \<le> simps_core y x"
proof (cases "even N")
  case True
  then show ?thesis using simps_core_even_ge[OF assms(1,2) True assms(3-6)] by simp
next
  case False
  then have N3: "3 \<le> N" using assms(3) by (cases "N = 2") auto
  have "simps_core y x = basic_simps y 0 (int N - 2) x"
    using False assms(1) by (simp add: simps_core_def Let_def even_iff_mod_2_eq_zero)
  moreover have "0 \<le> y ! 0" using assms(1,3,4) by simp
  then have "h / 4 * y ! 0 \<le> h / 3 * y ! 0"
    using assms(6) by (intro mult_right_mono) simp_all
  ultimately show ?thesis using basic_simps_first[OF assms(1,2) N3 assms(4-6)] by linarith
qed

lemma simps_core_nonneg:
  assumes "length y = N" "length x = N" "2 \<le> N"
    "\<forall>a\<in>set y. 0 \<le> a" "\<forall>k. k + 1 < length x \<longrightarrow> x ! (k + 1) - x ! k = h" "0 < h"
  shows "0 \<le> simps_core y x"
proof -
  have "0 \<le> y ! 0" using assms(1,3,4) by simp
  then have "0 \<le> h / 4 * y ! 0" using assms(6) by simp
  then show ?thesis using simps_core_ge[OF assms] by linarith
qed

subsection \<open>The coarsest grid\<close>

lemma upt_two: "[0..<2] = [0, Suc 0]"
  by (simp add: numeral_2_eq_2)

lemma quadrature_two:
  assumes "nat (self_n m) = 2" "length (self_v m) = 2" "length (self_u m) = 2"
  shows "quadrature_area simps_core m = quadrature_area trapz m"
  unfolding quadrature_area_def Let_def assms(1)
  using assms(2,3) by (simp add: simps_core_two)

lemma surface_area_two:
  assumes "init R w 2 = Inr m"
  shows "surface_area m = Inr (quadrature_area trapz m)"
proof -
  have "nat (self_n m) = 2" using init_fields(3)[OF assms] by simp
  moreover have "length (self_v m) = 2" "length (self_u m) = 2"
    using init_lengths(2,3)[OF assms] by simp_all
  ultimately show ?thesis
    using surface_area_value[OF _ assms] quadrature_two by simp
qed

text \<open>
  Claim C6. \<^verbatim>\<open>surface_area\<close> returns a value for every valid configuration, so it is
  total for \<open>n \<ge> 2\<close>; on the coarsest grid \<open>n = 2\<close> both integrals are the trapezoidal rule
  on two samples, which is what \<^verbatim>\<open>simps\<close> reduces to there without raising.
\<close>

theorem surface_area_total:
  assumes "0 < R" "0 < w" "2 \<le> n" "init R w n = Inr m"
  shows "(\<exists>a. surface_area m = Inr a)
       \<and> (n = 2 \<longrightarrow> surface_area m = Inr (quadrature_area trapz m))"
  using surface_area_value[OF assms(3,4)] surface_area_two assms(4) by blast

theorem surface_area_total_witness:
  "\<exists>m. init 1 1 2 = Inr m \<and> (\<exists>a. surface_area m = Inr a)
      \<and> surface_area m = Inr (quadrature_area trapz m)"
proof -
  obtain m where m: "init 1 1 2 = Inr m" using init_ok[of 2 1 1] by auto
  have "(0::real) < 1" "(2::int) \<le> 2" by simp_all
  from surface_area_total[OF this(1) this(1) this(2) m] m
  show ?thesis by (intro exI[of _ m]) simp
qed

subsection \<open>Signs of the exact values\<close>

text \<open>
  Over the reals the iterated quadrature of the area element is non-negative, and positive
  from \<open>n = 3\<close> on, and the two boundary polylines have positive total length. These are
  facts about the exact values only: the sign of the floating-point numbers the methods
  return is decided by rounding and underflow, which this embedding does not model.
\<close>

lemma init_v_uniform:
  assumes "init R w n = Inr m" "2 \<le> n"
  shows "\<forall>k. k + 1 < length (self_v m) \<longrightarrow> self_v m ! (k + 1) - self_v m ! k = w / (real_of_int n - 1)"
  using linspace_step[OF init_fields(5)[OF assms(1)] assms(2)] init_lengths(3)[OF assms(1)] by simp

lemma init_u_uniform:
  assumes "init R w n = Inr m" "2 \<le> n"
  shows "\<forall>k. k + 1 < length (self_u m) \<longrightarrow> self_u m ! (k + 1) - self_u m ! k = 2 * pi / (real_of_int n - 1)"
  using linspace_step[OF init_fields(4)[OF assms(1)] assms(2)] init_lengths(2)[OF assms(1)] by simp

lemma area_element_nonneg: "0 \<le> area_element m i j"
  by (simp add: area_element_def Let_def)

lemma Z01_negative:
  assumes "init R w n = Inr m" "3 \<le> n" "0 < w"
  shows "self_Z m ! 0 ! 1 < 0"
proof -
  have n2: "2 \<le> n" and lt: "0 < nat n" "1 < nat n" using assms(2) by simp_all
  have d: "2 \<le> real_of_int n - 1" using assms(2) by simp
  define x where "x = pi / (real_of_int n - 1)"
  have "0 < x" unfolding x_def using d by simp
  moreover have "x \<le> pi / 2" unfolding x_def using d by (intro divide_left_mono) simp_all
  then have "x < pi" using pi_gt_zero by linarith
  ultimately have s: "0 < sin x" by (rule sin_gt_zero)
  have "self_u m ! 1 = 2 * x" using init_u_nth[OF assms(1) n2 lt(2)] by (simp add: x_def)
  then have u1: "self_u m ! 1 / 2 = x" by simp
  have v0: "self_v m ! 0 = - w / 2" using init_v_nth[OF assms(1) n2 lt(1)] by simp
  have "self_Z m ! 0 ! 1 = - w / 2 * sin x"
    unfolding init_XYZ_nth(3)[OF assms(1) lt] init_UV_nth[OF assms(1) lt] u1 v0 ..
  moreover have "0 < w / 2 * sin x" using s assms(3) by simp
  ultimately show ?thesis by simp
qed

lemma area_element_corner:
  assumes "init R w n = Inr m" "3 \<le> n" "0 < w"
  shows "0 < area_element m 0 0"
proof -
  have n2: "2 \<le> n" and lt: "0 < nat n" "1 < nat n" using assms(2) by simp_all
  have nN: "nat (self_n m) = nat n" using init_fields(3)[OF assms(1)] by simp
  have d: "0 < real_of_int n - 1" using assms(2) by simp
  define du where "du = self_u m ! 1 - self_u m ! 0"
  define dv where "dv = self_v m ! 1 - self_v m ! 0"
  have du: "du \<noteq> 0" unfolding du_def using init_u_uniform[OF assms(1) n2] init_lengths(2)[OF assms(1)] lt d
    by simp
  have dv: "dv \<noteq> 0" unfolding dv_def using init_v_uniform[OF assms(1) n2] init_lengths(3)[OF assms(1)] lt d assms(3)
    by simp
  have c0: "central_diff f (nat n) 0 = f 1 - f 0" for f by (simp add: central_diff_def)
  have Xv: "(self_X m ! 1 ! 0 - self_X m ! 0 ! 0) / dv = 1"
    unfolding seam_first(1)[OF assms(1) n2 lt(1)] seam_first(1)[OF assms(1) n2 lt(2)]
    using dv by (simp add: dv_def)
  have Yv: "(self_Y m ! 1 ! 0 - self_Y m ! 0 ! 0) / dv = 0"
    unfolding seam_first(2)[OF assms(1) n2 lt(1)] seam_first(2)[OF assms(1) n2 lt(2)] by simp
  have Zv: "(self_Z m ! 1 ! 0 - self_Z m ! 0 ! 0) / dv = 0"
    unfolding seam_first(3)[OF assms(1) n2 lt(1)] seam_first(3)[OF assms(1) n2 lt(2)] by simp
  define Zu where "Zu = (self_Z m ! 0 ! 1 - self_Z m ! 0 ! 0) / du"
  define Xu where "Xu = (self_X m ! 0 ! 1 - self_X m ! 0 ! 0) / du"
  define Yu where "Yu = (self_Y m ! 0 ! 1 - self_Y m ! 0 ! 0) / du"
  have "Zu = self_Z m ! 0 ! 1 / du" unfolding Zu_def seam_first(3)[OF assms(1) n2 lt(1)] by simp
  then have Zu: "Zu \<noteq> 0" using Z01_negative[OF assms] du by simp
  have "area_element m 0 0 = sqrt ((Yu * 0 - Zu * 0) ^ 2 + (Zu * 1 - Xu * 0) ^ 2 + (Xu * 0 - Yu * 1) ^ 2)"
    unfolding area_element_def Let_def nN c0 du_def[symmetric] dv_def[symmetric] Xv Yv Zv
      Xu_def[symmetric] Yu_def[symmetric] Zu_def[symmetric] ..
  also have "\<dots> = sqrt (Zu ^ 2 + Yu ^ 2)" by simp
  also have "0 < \<dots>"
  proof -
    have "0 < Zu ^ 2" using Zu by simp
    moreover have "0 \<le> Yu ^ 2" by simp
    ultimately have "0 < Zu ^ 2 + Yu ^ 2" by linarith
    then show ?thesis by simp
  qed
  finally show ?thesis .
qed

lemma quadrature_area_sign:
  assumes "init R w n = Inr m" "2 \<le> n" "0 < w"
  shows "0 \<le> quadrature_area simps_core m"
    and "3 \<le> n \<Longrightarrow> 0 < quadrature_area simps_core m"
proof -
  define N where "N = nat n"
  have N2: "2 \<le> N" using assms(2) by (simp add: N_def)
  have nN: "nat (self_n m) = N" using init_fields(3)[OF assms(1)] by (simp add: N_def)
  note len = init_lengths(2,3)[OF assms(1), folded N_def]
  have d: "0 < real_of_int n - 1" using assms(2) by simp
  define hv where "hv = w / (real_of_int n - 1)"
  define hu where "hu = 2 * pi / (real_of_int n - 1)"
  have hv: "0 < hv" and hu: "0 < hu" unfolding hv_def hu_def using d assms(3) by simp_all
  note vu = init_v_uniform[OF assms(1,2), folded hv_def]
  note uu = init_u_uniform[OF assms(1,2), folded hu_def]
  define col where "col = (\<lambda>j. map (\<lambda>i. area_element m i j) [0..<N])"
  define area_v where "area_v = map (\<lambda>j. simps_core (col j) (self_v m)) [0..<N]"
  have q: "quadrature_area simps_core m = simps_core area_v (self_u m)"
    unfolding quadrature_area_def Let_def nN area_v_def col_def ..
  have col_len: "length (col j) = N" for j by (simp add: col_def)
  have col_nn: "\<forall>a\<in>set (col j). 0 \<le> a" for j by (auto simp: col_def area_element_nonneg)
  have inner_nn: "0 \<le> simps_core (col j) (self_v m)" for j
    by (rule simps_core_nonneg[OF col_len len(2) N2 col_nn vu hv])
  have av_len: "length area_v = N" by (simp add: area_v_def)
  have av_nn: "\<forall>a\<in>set area_v. 0 \<le> a" using inner_nn by (auto simp: area_v_def)
  show "0 \<le> quadrature_area simps_core m"
    unfolding q by (rule simps_core_nonneg[OF av_len len(1) N2 av_nn uu hu])
  show "0 < quadrature_area simps_core m" if n3: "3 \<le> n"
  proof -
    have pos: "0 < N" using N2 by simp
    have "col 0 ! 0 = area_element m 0 0" using pos by (simp add: col_def)
    then have c0: "0 < col 0 ! 0" using area_element_corner[OF assms(1) n3 assms(3)] by simp
    have "hv / 4 * col 0 ! 0 \<le> simps_core (col 0) (self_v m)"
      by (rule simps_core_ge[OF col_len len(2) N2 col_nn vu hv])
    moreover have "0 < hv / 4 * col 0 ! 0" using hv c0 by simp
    ultimately have i0: "0 < simps_core (col 0) (self_v m)" by linarith
    have "area_v ! 0 = simps_core (col 0) (self_v m)" using pos by (simp add: area_v_def)
    then have a0: "0 < area_v ! 0" using i0 by simp
    have "hu / 4 * area_v ! 0 \<le> simps_core area_v (self_u m)"
      by (rule simps_core_ge[OF av_len len(1) N2 av_nn uu hu])
    moreover have "0 < hu / 4 * area_v ! 0" using hu a0 by simp
    ultimately show ?thesis unfolding q by linarith
  qed
qed

lemma sqrt_sum_squares_pos:
  fixes a b c :: real
  assumes "a \<noteq> 0 \<or> c \<noteq> 0"
  shows "0 < sqrt (a ^ 2 + b ^ 2 + c ^ 2)"
proof -
  have "0 < a ^ 2 + c ^ 2" using assms by (auto simp: sum_power2_gt_zero_iff)
  moreover have "0 \<le> b ^ 2" by simp
  ultimately have "0 < a ^ 2 + b ^ 2 + c ^ 2" by linarith
  then show ?thesis by simp
qed

lemma polyline_length_nonneg: "0 \<le> polyline_length m r"
  unfolding polyline_length_def by (intro sum_nonneg) (simp add: segment_length_def)

lemma first_segment_positive:
  assumes "init R w n = Inr m" "2 \<le> n" "0 < w"
  shows "0 < segment_length m 0 0"
proof (cases "n = 2")
  case True
  have lt: "0 < nat n" using assms(2) by simp
  have one: "nat n - 1 = 1" using True by simp
  have v0: "self_v m ! 0 = - w / 2" using init_v_nth[OF assms(1,2) lt] by simp
  have "self_X m ! 0 ! 1 - self_X m ! 0 ! 0 = w"
    using seam_last(1)[OF assms(1,2) lt] seam_first(1)[OF assms(1,2) lt] v0 one by simp
  then have "self_X m ! 0 ! (0 + 1) - self_X m ! 0 ! 0 \<noteq> 0" using assms(3) by simp
  then show ?thesis unfolding segment_length_def by (intro sqrt_sum_squares_pos) blast
next
  case False
  then have n3: "3 \<le> n" using assms(2) by simp
  have lt: "0 < nat n" using assms(2) by simp
  have "self_Z m ! 0 ! (0 + 1) - self_Z m ! 0 ! 0 \<noteq> 0"
    using Z01_negative[OF assms(1) n3 assms(3)] seam_first(3)[OF assms(1,2) lt] by simp
  then show ?thesis unfolding segment_length_def by (intro sqrt_sum_squares_pos) blast
qed

lemma edge_sum_positive:
  assumes "init R w n = Inr m" "2 \<le> n" "0 < w"
  shows "0 < polyline_length m 0 + polyline_length m (nat n - 1)"
proof -
  have nN: "nat (self_n m) = nat n" using init_fields(3)[OF assms(1)] by simp
  have "0 \<in> {0..<nat n - 1}" using assms(2) by simp
  then have "segment_length m 0 0 \<le> polyline_length m 0"
    unfolding polyline_length_def nN
    by (intro member_le_sum) (simp_all add: segment_length_def)
  then show ?thesis
    using first_segment_positive[OF assms] polyline_length_nonneg[of m "nat n - 1"] by linarith
qed

end
